theory Spec2Isabelle
  imports Complex_Main "HOL-Library.Multiset"
begin

section \<open>Beam planner: data model of solution.cpp\<close>

text \<open>
  The program reads a scenario file (users, satellites, interferers with 3-D positions),
  builds for every user the list of satellites it may connect to, sorts the users by the
  length of that list and greedily hands out (satellite, color) beams.

  Conventions of the embedding.
  \<^item> C++ \<open>int\<close> identifiers and indices are \<open>int\<close>. A read \<open>v[i]\<close> of a \<open>std::vector\<close>
    outside \<open>0 \<le> i < v.size()\<close> is undefined behaviour in C++; it is the error value
    \<open>OutOfRange\<close> here, and so is every signed overflow of an index computation (an
    overflowing index is out of range of any vector the program can build).
  \<^item> A failing \<open>assert\<close> (assertions are compiled in) and an uncaught exception of
    \<open>std::stof\<close>/\<open>std::stoi\<close> end the run; they are error values too.
  \<^item> The coordinate type \<open>float\<close> is the type variable \<open>'f\<close>. The library functions
    \<open>std::stof\<close>, \<open>std::stoi\<close>, \<open>std::sort\<close> and the floating-point body of
    \<open>calc_angle\<close> are parameters of the functions that call them, so every theorem holds
    for each behaviour they may have. \<open>std::sort\<close> is called with the comparator of the
    source, and what is assumed of it is what the C++ standard promises. What
    \<open>calc_angle\<close> returns is a value of type \<open>angle\<close>: a finite number of degrees or NaN;
    a comparison with NaN is false, as for IEEE 754. The body of \<open>calc_angle\<close> itself is
    embedded twice, in exact real arithmetic and at the values of IEEE 754 binary32.
  \<^item> Objects created by \<open>new\<close> live in an explicit heap, addressed by natural numbers:
    the four \<open>SatBeamEntry\<close> records of one satellite hold the address of one shared
    counter and the addresses of four vectors of their own. The two writes of a commit
    (the \<open>push_back\<close> of line 174 and the increment of line 177) are one step.

  The file gannon_submission_0/solution.cpp is an earlier copy of the same program:
  its \<open>parse_scenario\<close> is \<open>solve\<close> with the loops of \<open>generate_user_vis_list\<close> written
  in place, and its \<open>greedy_solver\<close> is \<open>assign_beams_and_print\<close> with one more assertion
  after the increment, that the counter is at most \<open>BEAMS_PER_SATELLITE\<close>. Line numbers
  are those of solution.cpp.
\<close>

type_synonym id_t = int
type_synonym 'f vector_3d_t = "'f \<times> 'f \<times> 'f"
type_synonym 'f pos_vec_t = "'f vector_3d_t list"
type_synonym 'f scenario_t = "string \<Rightarrow> 'f pos_vec_t"

definition BEAMS_PER_SATELLITE :: int where
  "BEAMS_PER_SATELLITE = 32"

definition COLORS_PER_SATELLITE :: nat where
  "COLORS_PER_SATELLITE = 4"

definition MAX_USER_VISIBLE_ANGLE :: real where
  "MAX_USER_VISIBLE_ANGLE = 45"

definition NON_STARLINK_INTERFERENCE_MAX :: real where
  "NON_STARLINK_INTERFERENCE_MAX = 20"

definition SELF_INTERFERENCE_MAX :: real where
  "SELF_INTERFERENCE_MAX = 10"

definition COLOR_IDS :: "char list" where
  "COLOR_IDS = [CHR ''A'', CHR ''B'', CHR ''C'', CHR ''D'']"

definition ORIGIN :: "('f::zero) vector_3d_t" where
  "ORIGIN = (0, 0, 0)"

definition USER_KEY :: string where
  "USER_KEY = ''user''"

definition SATS_KEY :: string where
  "SATS_KEY = ''sat''"

definition INTERFERER_KEY :: string where
  "INTERFERER_KEY = ''interferer''"

datatype error = OutOfRange | SatIdAssertion | RoleAssertion | ConversionException

text \<open>\<open>v[i]\<close> on a \<open>std::vector\<close>.\<close>

definition vec_at :: "'a list \<Rightarrow> int \<Rightarrow> error + 'a" where
  "vec_at v i = (if 0 \<le> i \<and> i < int (length v) then Inr (v ! nat i) else Inl OutOfRange)"

subsection \<open>Angles\<close>

datatype angle = NaN | Deg real

fun angle_lt :: "angle \<Rightarrow> real \<Rightarrow> bool" where
  "angle_lt NaN b = False"
| "angle_lt (Deg a) b = (a < b)"

fun angle_le :: "angle \<Rightarrow> real \<Rightarrow> bool" where
  "angle_le NaN b = False"
| "angle_le (Deg a) b = (a \<le> b)"

fun angle_gt :: "angle \<Rightarrow> real \<Rightarrow> bool" where
  "angle_gt NaN b = False"
| "angle_gt (Deg a) b = (a > b)"

fun angle_ge :: "angle \<Rightarrow> real \<Rightarrow> bool" where
  "angle_ge NaN b = False"
| "angle_ge (Deg a) b = (a \<ge> b)"

type_synonym 'f angle_fn = "'f vector_3d_t \<Rightarrow> 'f vector_3d_t \<Rightarrow> 'f vector_3d_t \<Rightarrow> angle"

definition MIN_macro :: "real \<Rightarrow> real \<Rightarrow> real" where
  "MIN_macro a b = (if a < b then a else b)"

definition MAX_macro :: "real \<Rightarrow> real \<Rightarrow> real" where
  "MAX_macro a b = (if a > b then a else b)"

text \<open>
  \<open>calc_angle\<close> of the source, read in exact real arithmetic: rounding is not modelled.
  The one case in which exact arithmetic has no value is a ray of length zero, where the
  source divides 0 by 0; the NaN it gets there passes through the macros \<open>MAX\<close>, \<open>MIN\<close> and \<open>acos\<close>.
  This reading is one instance of the parameter \<open>calc_angle\<close> of the functions below; it
  is used to run them on concrete scenarios.
\<close>

fun calc_angle_exact :: "real angle_fn" where
  "calc_angle_exact (v0, v1, v2) (a0, a1, a2) (b0, b1, b2) =
     (let va0 = a0 - v0; va1 = a1 - v1; va2 = a2 - v2;
          vb0 = b0 - v0; vb1 = b1 - v1; vb2 = b2 - v2;
          va_mag = sqrt (va0 ^ 2 + va1 ^ 2 + va2 ^ 2);
          vb_mag = sqrt (vb0 ^ 2 + vb1 ^ 2 + vb2 ^ 2)
      in if va_mag = 0 \<or> vb_mag = 0 then NaN
         else
           let dot_product = (va0 / va_mag) * (vb0 / vb_mag) + (va1 / va_mag) * (vb1 / vb_mag)
                 + (va2 / va_mag) * (vb2 / vb_mag);
               dot_product_bound = MIN_macro 1 (MAX_macro (- 1) dot_product)
           in Deg (arccos dot_product_bound * 180 / 3.141592653589793))"

declare calc_angle_exact.simps [simp del]

subsection \<open>The angle in binary floating point\<close>


























subsection \<open>Records and the heap\<close>

record SatBeamEntry =
  sat_id :: id_t
  color :: char
  beam_list :: nat
  total_sat_beam_count :: nat

text \<open>
  \<open>visible_sats\<close> points to a vector that only its own entry refers to; it is held by
  value.
\<close>

record UserVisibilityEntry =
  user_id :: id_t
  visible_sats :: "id_t list"

text \<open>The comparator that \<open>solve\<close> hands to \<open>std::sort\<close>, lines 54-59.\<close>

definition sortUsersByPotentialCoverage :: "UserVisibilityEntry \<Rightarrow> UserVisibilityEntry \<Rightarrow> bool" where
  "sortUsersByPotentialCoverage u1 u2 \<longleftrightarrow> length (visible_sats u1) < length (visible_sats u2)"

record 'f heap =
  vectors :: "nat \<Rightarrow> 'f pos_vec_t"
  ints :: "nat \<Rightarrow> int"
  next_vector :: nat
  next_int :: nat

definition empty_heap :: "'f heap" where
  "empty_heap = \<lparr>vectors = (\<lambda>_. []), ints = (\<lambda>_. 0), next_vector = 0, next_int = 0\<rparr>"

definition new_int :: "'f heap \<Rightarrow> int \<Rightarrow> nat \<times> 'f heap" where
  "new_int h v = (next_int h, h\<lparr>ints := (ints h)(next_int h := v), next_int := Suc (next_int h)\<rparr>)"

definition new_vector :: "'f heap \<Rightarrow> nat \<times> 'f heap" where
  "new_vector h =
     (next_vector h, h\<lparr>vectors := (vectors h)(next_vector h := []), next_vector := Suc (next_vector h)\<rparr>)"

text \<open>One printed line \<open>sat S beam N user U color C\<close>.\<close>

record assignment =
  out_sat :: int
  out_beam :: int
  out_user :: int
  out_color :: char

section \<open>The assignment engine (\<open>assign_beams_and_print\<close>)\<close>

text \<open>Lines 160-169: does the candidate conflict with a beam already on this color?\<close>

fun self_interference ::
  "'f angle_fn \<Rightarrow> 'f vector_3d_t \<Rightarrow> 'f vector_3d_t \<Rightarrow> 'f pos_vec_t \<Rightarrow> bool" where
  "self_interference calc_angle sat_pos user_pos [] = False"
| "self_interference calc_angle sat_pos user_pos (beam_target # rest) =
     (if angle_lt (calc_angle sat_pos user_pos beam_target) SELF_INTERFERENCE_MAX then True
      else self_interference calc_angle sat_pos user_pos rest)"

text \<open>
  Lines 153-188, the loop over \<open>color_i\<close>. The result is the heap and the line printed,
  if one was.
\<close>

function color_loop ::
  "'f angle_fn \<Rightarrow> SatBeamEntry list \<Rightarrow> id_t \<Rightarrow> id_t \<Rightarrow> 'f vector_3d_t \<Rightarrow> 'f vector_3d_t
     \<Rightarrow> nat \<Rightarrow> 'f heap \<Rightarrow> error + ('f heap \<times> assignment option)" where
  "color_loop calc_angle sat_beam_list sat_i user_i sat_pos user_pos color_i h =
     (if color_i < length COLOR_IDS then
        (case vec_at sat_beam_list (sat_i * int COLORS_PER_SATELLITE + int color_i) of
           Inl e \<Rightarrow> Inl e
         | Inr next_beam_entry \<Rightarrow>
             if sat_id next_beam_entry \<noteq> sat_i then Inl SatIdAssertion
             else if self_interference calc_angle sat_pos user_pos
                       (vectors h (beam_list next_beam_entry))
             then color_loop calc_angle sat_beam_list sat_i user_i sat_pos user_pos
                    (Suc color_i) h
             else
               let h1 = h\<lparr>vectors := (vectors h)(beam_list next_beam_entry :=
                            vectors h (beam_list next_beam_entry) @ [user_pos])\<rparr>;
                   h2 = h1\<lparr>ints := (ints h1)(total_sat_beam_count next_beam_entry :=
                            ints h1 (total_sat_beam_count next_beam_entry) + 1)\<rparr>
               in Inr (h2, Some \<lparr>out_sat = sat_id next_beam_entry + 1,
                                 out_beam = ints h2 (total_sat_beam_count next_beam_entry),
                                 out_user = user_i + 1,
                                 out_color = color next_beam_entry\<rparr>))
      else Inr (h, None))"
  by pat_completeness auto
termination
  by (relation "measure (\<lambda>(_, _, _, _, _, _, color_i, _). length COLOR_IDS - color_i)") auto

declare color_loop.simps [simp del]

text \<open>Lines 136-190, the loop over the user's visible satellites.\<close>

fun sat_loop ::
  "'f angle_fn \<Rightarrow> 'f scenario_t \<Rightarrow> SatBeamEntry list \<Rightarrow> id_t \<Rightarrow> id_t list \<Rightarrow> 'f heap
     \<Rightarrow> error + ('f heap \<times> assignment option)" where
  "sat_loop calc_angle scenario sat_beam_list user_i [] h = Inr (h, None)"
| "sat_loop calc_angle scenario sat_beam_list user_i (sat_i # rest) h =
     (case vec_at sat_beam_list (sat_i * int COLORS_PER_SATELLITE) of
        Inl e \<Rightarrow> Inl e
      | Inr beam_entry \<Rightarrow>
          if ints h (total_sat_beam_count beam_entry) \<ge> BEAMS_PER_SATELLITE
          then sat_loop calc_angle scenario sat_beam_list user_i rest h
          else
            (case vec_at (scenario SATS_KEY) sat_i of
               Inl e \<Rightarrow> Inl e
             | Inr sat_pos \<Rightarrow>
                 (case vec_at (scenario USER_KEY) user_i of
                    Inl e \<Rightarrow> Inl e
                  | Inr user_pos \<Rightarrow>
                      (case color_loop calc_angle sat_beam_list sat_i user_i sat_pos user_pos 0 h of
                         Inl e \<Rightarrow> Inl e
                       | Inr (h', Some a) \<Rightarrow> Inr (h', Some a)
                       | Inr (h', None) \<Rightarrow>
                           sat_loop calc_angle scenario sat_beam_list user_i rest h'))))"

text \<open>
  Lines 124-191, the loop over the users. The result is the heap reached, the lines
  printed so far and the error that ended the run, if one did.
\<close>

fun assign_beams_and_print ::
  "'f angle_fn \<Rightarrow> 'f scenario_t \<Rightarrow> UserVisibilityEntry list \<Rightarrow> SatBeamEntry list \<Rightarrow> 'f heap
     \<Rightarrow> 'f heap \<times> assignment list \<times> error option" where
  "assign_beams_and_print calc_angle scenario [] sat_beam_list h = (h, [], None)"
| "assign_beams_and_print calc_angle scenario (entry # rest) sat_beam_list h =
     (case sat_loop calc_angle scenario sat_beam_list (user_id entry) (visible_sats entry) h of
        Inl e \<Rightarrow> (h, [], Some e)
      | Inr (h', out) \<Rightarrow>
          (case assign_beams_and_print calc_angle scenario rest sat_beam_list h' of
             (h'', outs, r) \<Rightarrow> (h'', (case out of None \<Rightarrow> [] | Some a \<Rightarrow> [a]) @ outs, r)))"

section \<open>The visibility builder (\<open>generate_user_vis_list\<close>)\<close>

text \<open>Lines 231-238: is some interferer within 20 degrees of the satellite, seen from the user?\<close>

fun interferer_violation ::
  "'f angle_fn \<Rightarrow> 'f vector_3d_t \<Rightarrow> 'f vector_3d_t \<Rightarrow> 'f pos_vec_t \<Rightarrow> bool" where
  "interferer_violation calc_angle user_pos sat_pos [] = False"
| "interferer_violation calc_angle user_pos sat_pos (int_pos # rest) =
     (if angle_lt (calc_angle user_pos int_pos sat_pos) NON_STARLINK_INTERFERENCE_MAX then True
      else interferer_violation calc_angle user_pos sat_pos rest)"

text \<open>
  Lines 213-247, the loop over \<open>sat_beam_i\<close> in steps of \<open>COLORS_PER_SATELLITE\<close>. The
  satellite ids pushed to \<open>visible_sats\<close> are returned in the order of the pushes.
\<close>

function vis_sat_loop ::
  "'f::zero angle_fn \<Rightarrow> 'f scenario_t \<Rightarrow> SatBeamEntry list \<Rightarrow> id_t \<Rightarrow> nat
     \<Rightarrow> error + id_t list" where
  "vis_sat_loop calc_angle scenario sat_beam_list user_i sat_beam_i =
     (if sat_beam_i < length sat_beam_list then
        (let beam_entry = sat_beam_list ! sat_beam_i;
             sat_id = sat_id beam_entry
         in case vec_at (scenario SATS_KEY) sat_id of
              Inl e \<Rightarrow> Inl e
            | Inr sat_pos \<Rightarrow>
                (case vec_at (scenario USER_KEY) user_i of
                   Inl e \<Rightarrow> Inl e
                 | Inr user_pos \<Rightarrow>
                     if angle_le (calc_angle user_pos ORIGIN sat_pos)
                          (180 - MAX_USER_VISIBLE_ANGLE)
                     then vis_sat_loop calc_angle scenario sat_beam_list user_i
                            (sat_beam_i + COLORS_PER_SATELLITE)
                     else if interferer_violation calc_angle user_pos sat_pos
                               (scenario INTERFERER_KEY)
                     then vis_sat_loop calc_angle scenario sat_beam_list user_i
                            (sat_beam_i + COLORS_PER_SATELLITE)
                     else
                       (case vis_sat_loop calc_angle scenario sat_beam_list user_i
                               (sat_beam_i + COLORS_PER_SATELLITE) of
                          Inl e \<Rightarrow> Inl e
                        | Inr rest \<Rightarrow> Inr (sat_id # rest))))
      else Inr [])"
  by pat_completeness auto
termination
  by (relation "measure (\<lambda>(_, _, sat_beam_list, _, sat_beam_i). length sat_beam_list - sat_beam_i)")
    (auto simp: COLORS_PER_SATELLITE_def)

declare vis_sat_loop.simps [simp del]

text \<open>Lines 209-250, the loop over \<open>user_i\<close>.\<close>

fun vis_user_loop ::
  "'f::zero angle_fn \<Rightarrow> 'f scenario_t \<Rightarrow> SatBeamEntry list \<Rightarrow> nat list
     \<Rightarrow> error + UserVisibilityEntry list" where
  "vis_user_loop calc_angle scenario sat_beam_list [] = Inr []"
| "vis_user_loop calc_angle scenario sat_beam_list (user_i # rest) =
     (case vis_sat_loop calc_angle scenario sat_beam_list (int user_i) 0 of
        Inl e \<Rightarrow> Inl e
      | Inr sats \<Rightarrow>
          (case vis_user_loop calc_angle scenario sat_beam_list rest of
             Inl e \<Rightarrow> Inl e
           | Inr entries \<Rightarrow> Inr (\<lparr>user_id = int user_i, visible_sats = sats\<rparr> # entries)))"

definition generate_user_vis_list ::
  "'f::zero angle_fn \<Rightarrow> 'f scenario_t \<Rightarrow> SatBeamEntry list \<Rightarrow> error + UserVisibilityEntry list"
  where
  "generate_user_vis_list calc_angle scenario sat_beam_list =
     vis_user_loop calc_angle scenario sat_beam_list [0 ..< length (scenario USER_KEY)]"

section \<open>Reading the scenario and running the planner (\<open>solve\<close>)\<close>

text \<open>\<open>split\<close>: the tokens of \<open>text\<close> between the occurrences of \<open>sep\<close>.\<close>

function split :: "string \<Rightarrow> char \<Rightarrow> string list" where
  "split text sep =
     (if sep \<in> set text
      then takeWhile (\<lambda>c. c \<noteq> sep) text # split (tl (dropWhile (\<lambda>c. c \<noteq> sep) text)) sep
      else [text])"
  by pat_completeness auto
termination
proof (relation "measure (\<lambda>(s, sep). length s)")
  show "wf (measure (\<lambda>(s :: string, sep :: char). length s))"
    by simp
next
  fix s :: string and sep :: char
  assume "sep \<in> set s"
  then have "dropWhile (\<lambda>c. c \<noteq> sep) s \<noteq> []"
    by (auto simp: dropWhile_eq_Nil_conv)
  then have "length (tl (dropWhile (\<lambda>c. c \<noteq> sep) s)) < length (dropWhile (\<lambda>c. c \<noteq> sep) s)"
    by simp
  also have "\<dots> \<le> length s"
    by (rule length_dropWhile_le)
  finally show "((tl (dropWhile (\<lambda>c. c \<noteq> sep) s), sep), (s, sep))
      \<in> measure (\<lambda>(s, sep). length s)"
    by simp
qed

declare split.simps [simp del]

type_synonym 'f parse_state = "'f scenario_t \<times> SatBeamEntry list \<times> 'f heap"

text \<open>
  How reading the file ends: the scenario was read to the end, or a line was reported as
  unreadable and \<open>solve\<close> returned, or the run was aborted.
\<close>

datatype 'f parsed = Parsed "'f parse_state" | CouldntRead string | Crashed error

text \<open>
  Lines 303-308: the four entries of one satellite. \<open>stoi\<close> is called in every round of
  the loop.
\<close>

fun sat_entry_loop ::
  "(string \<Rightarrow> int option) \<Rightarrow> string list \<Rightarrow> nat \<Rightarrow> nat list \<Rightarrow> SatBeamEntry list \<times> 'f heap
     \<Rightarrow> error + (SatBeamEntry list \<times> 'f heap)" where
  "sat_entry_loop stoi parts beam_i_ptr [] (sat_beam_list, h) = Inr (sat_beam_list, h)"
| "sat_entry_loop stoi parts beam_i_ptr (i # rest) (sat_beam_list, h) =
     (case stoi (parts ! 1) of
        None \<Rightarrow> Inl ConversionException
      | Some n \<Rightarrow>
          (let id = n - 1;
               color = COLOR_IDS ! i;
               (list_ptr, h') = new_vector h;
               entry = \<lparr>sat_id = id, color = color, beam_list = list_ptr,
                        total_sat_beam_count = beam_i_ptr\<rparr>
           in sat_entry_loop stoi parts beam_i_ptr rest (sat_beam_list @ [entry], h')))"

text \<open>
  Lines 283-309, one round of the \<open>getline\<close> loop. \<open>parts ! k\<close> is read only after
  \<open>parts\<close> was checked to have 5 elements.
\<close>

text \<open>
  Line 283: \<open>line_buff[0] == '#' || line_buff == ""\<close>. On an empty string
  \<open>line_buff[0]\<close> is the terminating null character.
\<close>

definition skipped :: "string \<Rightarrow> bool" where
  "skipped line_buff =
     ((case line_buff of [] \<Rightarrow> False | c # _ \<Rightarrow> c = CHR ''#'') \<or> line_buff = [])"

definition parse_line ::
  "(string \<Rightarrow> 'f option) \<Rightarrow> (string \<Rightarrow> int option) \<Rightarrow> string \<Rightarrow> 'f parse_state \<Rightarrow> 'f parsed"
  where
  "parse_line stof stoi line_buff st =
     (case st of (scenario, sat_beam_list, h) \<Rightarrow>
        if skipped line_buff then Parsed st
        else
          (let parts = split line_buff CHR '' '' in
           if length parts \<noteq> 5 then CouldntRead line_buff
           else
             (case stof (parts ! 2) of
                None \<Rightarrow> Crashed ConversionException
              | Some x \<Rightarrow>
                  (case stof (parts ! 3) of
                     None \<Rightarrow> Crashed ConversionException
                   | Some y \<Rightarrow>
                       (case stof (parts ! 4) of
                          None \<Rightarrow> Crashed ConversionException
                        | Some z \<Rightarrow>
                            if \<not> (parts ! 0 = USER_KEY \<or> parts ! 0 = SATS_KEY
                                  \<or> parts ! 0 = INTERFERER_KEY)
                            then Crashed RoleAssertion
                            else
                              (let scenario' =
                                     scenario (parts ! 0 := scenario (parts ! 0) @ [(x, y, z)])
                               in if parts ! 0 = SATS_KEY then
                                    (case new_int h 0 of (beam_i_ptr, h1) \<Rightarrow>
                                       (case sat_entry_loop stoi parts beam_i_ptr
                                               [0 ..< COLORS_PER_SATELLITE] (sat_beam_list, h1) of
                                          Inl e \<Rightarrow> Crashed e
                                        | Inr (sat_beam_list', h') \<Rightarrow>
                                            Parsed (scenario', sat_beam_list', h')))
                                  else Parsed (scenario', sat_beam_list, h)))))))"

text \<open>Lines 281-310, the \<open>getline\<close> loop over the lines of the file.\<close>

fun parse_lines ::
  "(string \<Rightarrow> 'f option) \<Rightarrow> (string \<Rightarrow> int option) \<Rightarrow> string list \<Rightarrow> 'f parse_state \<Rightarrow> 'f parsed"
  where
  "parse_lines stof stoi [] st = Parsed st"
| "parse_lines stof stoi (line_buff # rest) st =
     (case parse_line stof stoi line_buff st of
        Parsed st' \<Rightarrow> parse_lines stof stoi rest st'
      | CouldntRead l \<Rightarrow> CouldntRead l
      | Crashed e \<Rightarrow> Crashed e)"

definition initial_state :: "'f parse_state" where
  "initial_state = ((\<lambda>_. []), [], empty_heap)"

text \<open>What the program writes to standard output, and how the run ends.\<close>

datatype printed = FileDoesNotExist string | CouldntReadLine string | Assigned assignment

datatype exit = Returned | Aborted error




text \<open>
  \<open>solve\<close>. The file is \<open>None\<close> when it cannot be opened and the list of its lines
  otherwise. \<open>std_sort\<close> is the library function called in line 316; it is given the
  comparator of the source.
\<close>

definition solve ::
  "(string \<Rightarrow> 'f option) \<Rightarrow> (string \<Rightarrow> int option) \<Rightarrow> 'f::zero angle_fn
     \<Rightarrow> ((UserVisibilityEntry \<Rightarrow> UserVisibilityEntry \<Rightarrow> bool)
           \<Rightarrow> UserVisibilityEntry list \<Rightarrow> UserVisibilityEntry list)
     \<Rightarrow> string \<Rightarrow> string list option \<Rightarrow> printed list \<times> exit" where
  "solve stof stoi calc_angle std_sort filename file =
     (case file of
        None \<Rightarrow> ([FileDoesNotExist filename], Returned)
      | Some lines \<Rightarrow>
          (case parse_lines stof stoi lines initial_state of
             CouldntRead l \<Rightarrow> ([CouldntReadLine l], Returned)
           | Crashed e \<Rightarrow> ([], Aborted e)
           | Parsed (scenario, sat_beam_list, h) \<Rightarrow>
               (case generate_user_vis_list calc_angle scenario sat_beam_list of
                  Inl e \<Rightarrow> ([], Aborted e)
                | Inr user_vis_list \<Rightarrow>
                    (case assign_beams_and_print calc_angle scenario
                            (std_sort sortUsersByPotentialCoverage user_vis_list)
                            sat_beam_list h of
                       (h', outs, r) \<Rightarrow>
                         (map Assigned outs,
                          case r of None \<Rightarrow> Returned | Some e \<Rightarrow> Aborted e)))))"

section \<open>Instances of the library functions\<close>

text \<open>
  \<open>std::stoi\<close> in base 10: white space is skipped, a sign may follow, then the longest
  run of digits is read. No digit, or a value outside the range of \<open>int\<close>, raises an
  exception.
\<close>

definition isspace :: "char \<Rightarrow> bool" where
  "isspace c = (c = CHR '' '' \<or> (9 \<le> (of_char c :: nat) \<and> (of_char c :: nat) \<le> 13))"

definition isdigit :: "char \<Rightarrow> bool" where
  "isdigit c = (48 \<le> (of_char c :: nat) \<and> (of_char c :: nat) \<le> 57)"

fun digits_value :: "int \<Rightarrow> string \<Rightarrow> int" where
  "digits_value acc [] = acc"
| "digits_value acc (c # cs) = digits_value (acc * 10 + (int (of_char c) - 48)) cs"

definition stoi_std :: "string \<Rightarrow> int option" where
  "stoi_std s =
     (let s1 = dropWhile isspace s;
          neg = (case s1 of [] \<Rightarrow> False | c # _ \<Rightarrow> c = CHR ''-'');
          s2 = (case s1 of [] \<Rightarrow> [] | c # r \<Rightarrow> if c = CHR ''-'' \<or> c = CHR ''+'' then r else s1);
          ds = takeWhile isdigit s2;
          v = (if neg then - digits_value 0 ds else digits_value 0 ds)
      in if ds = [] then None
         else if - (2 ^ 31) \<le> v \<and> v < 2 ^ 31 then Some v
         else None)"

text \<open>
  A stand-in for \<open>std::stof\<close> on the two kinds of token of the examples below: a token
  that is a decimal integer literal, which \<open>std::stof\<close> converts to its value, and a
  token that does not start with a number, at which \<open>std::stof\<close> raises an exception.
\<close>

definition stof_int :: "string \<Rightarrow> real option" where
  "stof_int s =
     (let neg = (case s of [] \<Rightarrow> False | c # _ \<Rightarrow> c = CHR ''-'');
          ds = (case s of [] \<Rightarrow> [] | c # r \<Rightarrow> if c = CHR ''-'' then r else s)
      in if ds \<noteq> [] \<and> list_all isdigit ds
         then Some (real_of_int (if neg then - digits_value 0 ds else digits_value 0 ds))
         else None)"

text \<open>
  One admissible behaviour of \<open>std::sort\<close>: sorting by insertion, which keeps equivalent
  elements in the order they had.
\<close>

fun insert_by :: "('a \<Rightarrow> 'a \<Rightarrow> bool) \<Rightarrow> 'a \<Rightarrow> 'a list \<Rightarrow> 'a list" where
  "insert_by cmp x [] = [x]"
| "insert_by cmp x (y # ys) = (if cmp y x then y # insert_by cmp x ys else x # y # ys)"

definition insertion_sort :: "('a \<Rightarrow> 'a \<Rightarrow> bool) \<Rightarrow> 'a list \<Rightarrow> 'a list" where
  "insertion_sort cmp xs = foldr (insert_by cmp) xs []"

section \<open>The operations of the beam state, as the specification names them\<close>

text \<open>
  The specification describes the engine through three operations on the beam state.
  They are written here from its words, over the same heap, to state what the loops of
  the source compute. The slot of satellite \<open>sat\<close> and color number \<open>c\<close> is the entry
  \<open>sat_beam_list[sat * 4 + c]\<close>.
\<close>

definition slot :: "SatBeamEntry list \<Rightarrow> id_t \<Rightarrow> nat \<Rightarrow> SatBeamEntry" where
  "slot sat_beam_list sat c = sat_beam_list ! nat (sat * int COLORS_PER_SATELLITE + int c)"

definition counter :: "'f heap \<Rightarrow> SatBeamEntry list \<Rightarrow> id_t \<Rightarrow> int" where
  "counter h sat_beam_list sat = ints h (total_sat_beam_count (slot sat_beam_list sat 0))"

definition capacity_remaining :: "'f heap \<Rightarrow> SatBeamEntry list \<Rightarrow> id_t \<Rightarrow> bool" where
  "capacity_remaining h sat_beam_list sat = (counter h sat_beam_list sat < BEAMS_PER_SATELLITE)"

definition conflicts ::
  "'f angle_fn \<Rightarrow> 'f scenario_t \<Rightarrow> SatBeamEntry list \<Rightarrow> 'f heap \<Rightarrow> id_t \<Rightarrow> nat \<Rightarrow> 'f vector_3d_t
     \<Rightarrow> bool" where
  "conflicts calc_angle scenario sat_beam_list h sat c candidate =
     list_ex (\<lambda>target. angle_lt (calc_angle (scenario SATS_KEY ! nat sat) candidate target)
                 SELF_INTERFERENCE_MAX)
       (vectors h (beam_list (slot sat_beam_list sat c)))"

definition commit :: "'f heap \<Rightarrow> SatBeamEntry \<Rightarrow> 'f vector_3d_t \<Rightarrow> 'f heap" where
  "commit h e candidate =
     h\<lparr>vectors := (vectors h)(beam_list e := vectors h (beam_list e) @ [candidate]),
       ints := (ints h)(total_sat_beam_count e := ints h (total_sat_beam_count e) + 1)\<rparr>"

text \<open>
  The first (satellite, color) pair, walking the user's satellites in stored order and
  for each the colors in declared order, that has capacity left and no conflict.
\<close>

definition first_free ::
  "'f angle_fn \<Rightarrow> 'f scenario_t \<Rightarrow> SatBeamEntry list \<Rightarrow> 'f heap \<Rightarrow> 'f vector_3d_t \<Rightarrow> id_t list
     \<Rightarrow> (id_t \<times> nat) option" where
  "first_free calc_angle scenario sat_beam_list h candidate sats =
     find (\<lambda>(sat, c). capacity_remaining h sat_beam_list sat
                \<and> \<not> conflicts calc_angle scenario sat_beam_list h sat c candidate)
       (List.product sats [0 ..< length COLOR_IDS])"

text \<open>The line printed for a commit to the entry \<open>e\<close>, read in the heap after the commit.\<close>

definition event :: "'f heap \<Rightarrow> SatBeamEntry \<Rightarrow> id_t \<Rightarrow> assignment" where
  "event h' e user_i =
     \<lparr>out_sat = sat_id e + 1, out_beam = ints h' (total_sat_beam_count e),
      out_user = user_i + 1, out_color = color e\<rparr>"

section \<open>Well-formed beam state\<close>

text \<open>
  The shape of \<open>sat_beam_list\<close> that \<open>solve\<close> builds from an empty heap: four entries per
  satellite line, the entry at index \<open>i\<close> holding the address \<open>i\<close> of its own vector and
  the address \<open>i div 4\<close> of the counter it shares with the other entries of its group.
\<close>

definition wf_sat_beam_list :: "SatBeamEntry list \<Rightarrow> bool" where
  "wf_sat_beam_list sat_beam_list =
     (COLORS_PER_SATELLITE dvd length sat_beam_list
      \<and> list_all (\<lambda>i. beam_list (sat_beam_list ! i) = i
                      \<and> total_sat_beam_count (sat_beam_list ! i) = i div COLORS_PER_SATELLITE)
          [0 ..< length sat_beam_list])"

text \<open>The number of beam targets held by the four slots of a satellite.\<close>

definition slot_sizes :: "'f heap \<Rightarrow> SatBeamEntry list \<Rightarrow> id_t \<Rightarrow> int" where
  "slot_sizes h sat_beam_list sat =
     (\<Sum>c \<leftarrow> [0 ..< length COLOR_IDS]. int (length (vectors h (beam_list (slot sat_beam_list sat c)))))"

text \<open>The identifiers of the satellites of the engine, in the order of the scenario.\<close>

definition sat_ids :: "SatBeamEntry list \<Rightarrow> id_t list" where
  "sat_ids sat_beam_list = map int [0 ..< length sat_beam_list div COLORS_PER_SATELLITE]"

text \<open>
  The capacity invariant: the counter of every satellite is the number of beam targets
  in its four slots, and is at most \<open>BEAMS_PER_SATELLITE\<close>.
\<close>

definition capacity_invariant :: "'f heap \<Rightarrow> SatBeamEntry list \<Rightarrow> bool" where
  "capacity_invariant h sat_beam_list =
     list_all (\<lambda>sat. counter h sat_beam_list sat = slot_sizes h sat_beam_list sat
                      \<and> counter h sat_beam_list sat \<le> BEAMS_PER_SATELLITE)
       (sat_ids sat_beam_list)"

text \<open>
  Every beam target of a slot was checked, when it was appended, against the targets
  that were in the slot before it.
\<close>

definition separated :: "'f angle_fn \<Rightarrow> 'f vector_3d_t \<Rightarrow> 'f pos_vec_t \<Rightarrow> bool" where
  "separated calc_angle sat_pos targets =
     (\<forall>j < length targets. \<forall>i < j.
        \<not> angle_lt (calc_angle sat_pos (targets ! j) (targets ! i)) SELF_INTERFERENCE_MAX)"

definition separation_invariant ::
  "'f angle_fn \<Rightarrow> 'f scenario_t \<Rightarrow> 'f heap \<Rightarrow> SatBeamEntry list \<Rightarrow> bool" where
  "separation_invariant calc_angle scenario h sat_beam_list =
     (\<forall>sat \<in> set (sat_ids sat_beam_list). \<forall>c < length COLOR_IDS.
        separated calc_angle (scenario SATS_KEY ! nat sat)
          (vectors h (beam_list (slot sat_beam_list sat c)))
        \<and> set (vectors h (beam_list (slot sat_beam_list sat c))) \<subseteq> set (scenario USER_KEY))"


text \<open>
  What holds of the state while \<open>solve\<close> reads the file: the beam list is well formed,
  every vector is empty, every counter is 0, and there is one counter per satellite
  position.
\<close>

definition parse_invariant :: "'f parse_state \<Rightarrow> bool" where
  "parse_invariant st =
     (case st of (scenario, sat_beam_list, h) \<Rightarrow>
        wf_sat_beam_list sat_beam_list
        \<and> next_vector h = length sat_beam_list
        \<and> length sat_beam_list = COLORS_PER_SATELLITE * next_int h
        \<and> length (scenario SATS_KEY) = next_int h
        \<and> (\<forall>a. vectors h a = []) \<and> (\<forall>a. ints h a = 0)
        \<and> (\<forall>i < length sat_beam_list.
              color (sat_beam_list ! i) = COLOR_IDS ! (i mod COLORS_PER_SATELLITE)))"

section \<open>A worked scenario\<close>

text \<open>
  One satellite at height 2 over the origin and three users. Seen from the satellite,
  the second user is 90 degrees away from the first, and the third is in line with the
  second.
\<close>

definition example_lines :: "string list" where
  "example_lines =
     [''# one satellite, three users'', '''', ''sat 1 0 0 2'', ''user 1 0 0 1'',
      ''user 2 1 0 2'', ''user 3 2 0 2'']"

definition example_scenario :: "real scenario_t" where
  "example_scenario =
     (\<lambda>_. [])(SATS_KEY := [(0, 0, 2)], USER_KEY := [(0, 0, 1), (1, 0, 2), (2, 0, 2)])"

definition example_sat_beam_list :: "SatBeamEntry list" where
  "example_sat_beam_list =
     [\<lparr>sat_id = 0, color = CHR ''A'', beam_list = 0, total_sat_beam_count = 0\<rparr>,
      \<lparr>sat_id = 0, color = CHR ''B'', beam_list = 1, total_sat_beam_count = 0\<rparr>,
      \<lparr>sat_id = 0, color = CHR ''C'', beam_list = 2, total_sat_beam_count = 0\<rparr>,
      \<lparr>sat_id = 0, color = CHR ''D'', beam_list = 3, total_sat_beam_count = 0\<rparr>]"

definition example_heap :: "real heap" where
  "example_heap = \<lparr>vectors = (\<lambda>_. []), ints = (\<lambda>_. 0), next_vector = 4, next_int = 1\<rparr>"

definition example_users :: "UserVisibilityEntry list" where
  "example_users =
     [\<lparr>user_id = 0, visible_sats = [0]\<rparr>, \<lparr>user_id = 1, visible_sats = [0]\<rparr>,
      \<lparr>user_id = 2, visible_sats = [0]\<rparr>]"

text \<open>The heap after the three users: two targets on color A, one on color B.\<close>

definition example_final_heap :: "real heap" where
  "example_final_heap =
     \<lparr>vectors = (\<lambda>_. [])(0 := [(0, 0, 1), (1, 0, 2)], 1 := [(2, 0, 2)]),
      ints = (\<lambda>_. 0)(0 := 3), next_vector = 4, next_int = 1\<rparr>"

definition example_events :: "assignment list" where
  "example_events =
     [\<lparr>out_sat = 1, out_beam = 1, out_user = 1, out_color = CHR ''A''\<rparr>,
      \<lparr>out_sat = 1, out_beam = 2, out_user = 2, out_color = CHR ''A''\<rparr>,
      \<lparr>out_sat = 1, out_beam = 3, out_user = 3, out_color = CHR ''B''\<rparr>]"







section \<open>Visibility, as the specification words it\<close>

text \<open>
  A satellite at \<open>S\<close> is visible to a user at \<open>U\<close> when the angle at \<open>U\<close> between the ray
  to the origin and the ray to \<open>S\<close> exceeds 135 degrees and no interferer is less than 20
  degrees away from the satellite, seen from \<open>U\<close>.
\<close>

definition visible ::
  "'f::zero angle_fn \<Rightarrow> 'f scenario_t \<Rightarrow> 'f vector_3d_t \<Rightarrow> 'f vector_3d_t \<Rightarrow> bool" where
  "visible calc_angle scenario U S =
     (angle_gt (calc_angle U ORIGIN S) (180 - MAX_USER_VISIBLE_ANGLE)
      \<and> \<not> list_ex (\<lambda>I. angle_lt (calc_angle U I S) NON_STARLINK_INTERFERENCE_MAX)
            (scenario INTERFERER_KEY))"

text \<open>
  A scenario with an interferer, on the z axis: a satellite over each of two users on
  opposite sides of the origin, and an interferer behind the second satellite.
\<close>

definition jammed_scenario :: "real scenario_t" where
  "jammed_scenario =
     (\<lambda>_. [])(SATS_KEY := [(0, 0, 2), (0, 0, - 2)], USER_KEY := [(0, 0, 1), (0, 0, - 1)],
              INTERFERER_KEY := [(0, 0, - 5)])"

definition jammed_sat_beam_list :: "SatBeamEntry list" where
  "jammed_sat_beam_list =
     [\<lparr>sat_id = 0, color = CHR ''A'', beam_list = 0, total_sat_beam_count = 0\<rparr>,
      \<lparr>sat_id = 0, color = CHR ''B'', beam_list = 1, total_sat_beam_count = 0\<rparr>,
      \<lparr>sat_id = 0, color = CHR ''C'', beam_list = 2, total_sat_beam_count = 0\<rparr>,
      \<lparr>sat_id = 0, color = CHR ''D'', beam_list = 3, total_sat_beam_count = 0\<rparr>,
      \<lparr>sat_id = 1, color = CHR ''A'', beam_list = 4, total_sat_beam_count = 1\<rparr>,
      \<lparr>sat_id = 1, color = CHR ''B'', beam_list = 5, total_sat_beam_count = 1\<rparr>,
      \<lparr>sat_id = 1, color = CHR ''C'', beam_list = 6, total_sat_beam_count = 1\<rparr>,
      \<lparr>sat_id = 1, color = CHR ''D'', beam_list = 7, total_sat_beam_count = 1\<rparr>]"

section \<open>Lines of a scenario file\<close>

text \<open>A line that is neither skipped nor made of five tokens.\<close>

definition malformed :: "string \<Rightarrow> bool" where
  "malformed line_buff = (\<not> skipped line_buff \<and> length (split line_buff CHR '' '') \<noteq> 5)"

text \<open>The role token of a line of five tokens is one of the three keys.\<close>

definition known_role :: "string \<Rightarrow> bool" where
  "known_role line_buff =
     (split line_buff CHR '' '' ! 0 = USER_KEY \<or> split line_buff CHR '' '' ! 0 = SATS_KEY
      \<or> split line_buff CHR '' '' ! 0 = INTERFERER_KEY)"

text \<open>A file whose satellite lines are not in the order of their identifiers.\<close>

definition swapped_lines :: "string list" where
  "swapped_lines = [''sat 2 0 0 2'', ''sat 1 0 0 3'', ''user 1 0 0 1'']"

text \<open>
  The satellite lines of the file were in the order of their identifiers 1, 2, ...: the
  entries of the satellite at index \<open>k\<close> carry the identifier \<open>k\<close>.
\<close>

definition ids_in_order :: "SatBeamEntry list \<Rightarrow> bool" where
  "ids_in_order sat_beam_list =
     list_all (\<lambda>i. sat_id (sat_beam_list ! i) = int (i div COLORS_PER_SATELLITE))
       [0 ..< length sat_beam_list]"

text \<open>
  The satellite lines of a file carry the identifiers \<open>n + 1\<close>, \<open>n + 2\<close>, ... in this
  order, where \<open>n\<close> satellites were read before.
\<close>

fun sat_lines_ordered :: "(string \<Rightarrow> int option) \<Rightarrow> string list \<Rightarrow> nat \<Rightarrow> bool" where
  "sat_lines_ordered stoi [] n = True"
| "sat_lines_ordered stoi (line_buff # rest) n =
     (if \<not> skipped line_buff \<and> length (split line_buff CHR '' '') = 5
         \<and> split line_buff CHR '' '' ! 0 = SATS_KEY
      then stoi (split line_buff CHR '' '' ! 1) = Some (int n + 1)
           \<and> sat_lines_ordered stoi rest (Suc n)
      else sat_lines_ordered stoi rest n)"

section \<open>What one user's pass over the satellites computes\<close>

lemma self_interference_list_ex:
  "self_interference calc_angle sat_pos user_pos xs =
     list_ex (\<lambda>target. angle_lt (calc_angle sat_pos user_pos target) SELF_INTERFERENCE_MAX) xs"
  by (induction xs) auto

lemma vec_at_Inr: "vec_at v i = Inr x \<longleftrightarrow> 0 \<le> i \<and> i < int (length v) \<and> x = v ! nat i"
  by (auto simp: vec_at_def)

lemma color_loop_find:
  "color_loop calc_angle sbl sat_i user_i sat_pos user_pos c h = Inr (h', out) \<Longrightarrow>
   (case find (\<lambda>k. \<not> self_interference calc_angle sat_pos user_pos
                        (vectors h (beam_list (slot sbl sat_i k)))) [c ..< length COLOR_IDS] of
      None \<Rightarrow> h' = h \<and> out = None
    | Some k \<Rightarrow> h' = commit h (slot sbl sat_i k) user_pos
         \<and> out = Some (event h' (slot sbl sat_i k) user_i)
         \<and> sat_id (slot sbl sat_i k) = sat_i
         \<and> 0 \<le> sat_i \<and> nat (sat_i * int COLORS_PER_SATELLITE + int k) < length sbl)"
proof (induction calc_angle sbl sat_i user_i sat_pos user_pos c h rule: color_loop.induct)
  case (1 calc_angle sbl sat_i user_i sat_pos user_pos c h)
  show ?case
  proof (cases "c < length COLOR_IDS")
    case False
    with "1.prems" show ?thesis
      by (simp add: color_loop.simps)
  next
    case True
    then have upt: "[c ..< length COLOR_IDS] = c # [Suc c ..< length COLOR_IDS]"
      by (simp add: upt_conv_Cons)
    from True "1.prems" obtain e where
      e: "vec_at sbl (sat_i * int COLORS_PER_SATELLITE + int c) = Inr e"
      by (subst (asm) color_loop.simps) (auto split: sum.splits)
    then have e_slot: "e = slot sbl sat_i c"
      and rng: "0 \<le> sat_i * int COLORS_PER_SATELLITE + int c"
        "nat (sat_i * int COLORS_PER_SATELLITE + int c) < length sbl"
      by (auto simp: vec_at_Inr slot_def)
    from True "1.prems" e have sid: "sat_id e = sat_i"
      by (subst (asm) color_loop.simps) (auto split: if_splits)
    show ?thesis
    proof (cases "self_interference calc_angle sat_pos user_pos (vectors h (beam_list e))")
      case si: True
      with True "1.prems" e sid have
        "color_loop calc_angle sbl sat_i user_i sat_pos user_pos (Suc c) h = Inr (h', out)"
        by (subst (asm) color_loop.simps) simp
      from "1.IH"[OF True e _ si this] sid si show ?thesis
        by (simp add: upt e_slot)
    next
      case si: False
      with True "1.prems" e sid have
        "(h', out) = (commit h e user_pos, Some (event (commit h e user_pos) e user_i))"
        by (subst (asm) color_loop.simps) (auto simp add: commit_def event_def Let_def)
      then have "h' = commit h e user_pos" "out = Some (event h' e user_i)"
        by auto
      moreover from rng True have "0 \<le> sat_i"
        by (simp add: COLORS_PER_SATELLITE_def COLOR_IDS_def)
      ultimately show ?thesis using si sid rng
        by (simp add: upt e_slot)
    qed
  qed
qed

lemma find_append:
  "find P (xs @ ys) = (case find P xs of None \<Rightarrow> find P ys | Some x \<Rightarrow> Some x)"
  by (induction xs) auto

lemma find_map: "find P (map f xs) = map_option f (find (\<lambda>x. P (f x)) xs)"
  by (induction xs) auto

lemma first_free_Cons:
  "first_free calc_angle scenario sbl h cand (sat # sats) =
     (if capacity_remaining h sbl sat then
        (case find (\<lambda>c. \<not> conflicts calc_angle scenario sbl h sat c cand) [0 ..< length COLOR_IDS] of
           None \<Rightarrow> first_free calc_angle scenario sbl h cand sats
         | Some c \<Rightarrow> Some (sat, c))
      else first_free calc_angle scenario sbl h cand sats)"
proof (cases "capacity_remaining h sbl sat")
  case True
  then show ?thesis
    by (simp add: first_free_def find_append find_map split: option.splits)
next
  case False
  then have "find (\<lambda>c. capacity_remaining h sbl sat \<and> \<not> conflicts calc_angle scenario sbl h sat c cand)
      [0 ..< length COLOR_IDS] = None"
    by (simp add: find_None_iff)
  with False show ?thesis
    by (simp add: first_free_def find_append find_map)
qed

lemma sat_loop_first_free:
  "sat_loop calc_angle scenario sbl user_i sats h = Inr (h', out) \<Longrightarrow>
   (case first_free calc_angle scenario sbl h (scenario USER_KEY ! nat user_i) sats of
      None \<Rightarrow> h' = h \<and> out = None
    | Some (sat, c) \<Rightarrow>
        h' = commit h (slot sbl sat c) (scenario USER_KEY ! nat user_i)
        \<and> out = Some (event h' (slot sbl sat c) user_i)
        \<and> sat_id (slot sbl sat c) = sat
        \<and> 0 \<le> sat \<and> nat (sat * int COLORS_PER_SATELLITE + int c) < length sbl
        \<and> nat sat < length (scenario SATS_KEY)
        \<and> 0 \<le> user_i \<and> nat user_i < length (scenario USER_KEY))"
proof (induction sats)
  case Nil
  then show ?case
    by (simp add: first_free_def)
next
  case (Cons sat_i rest)
  from Cons.prems obtain beam_entry where
    be: "vec_at sbl (sat_i * int COLORS_PER_SATELLITE) = Inr beam_entry"
    by (auto split: sum.splits)
  then have be_slot: "beam_entry = slot sbl sat_i 0"
    by (simp add: vec_at_Inr slot_def)
  show ?case
  proof (cases "capacity_remaining h sbl sat_i")
    case False
    with Cons.prems be be_slot have "sat_loop calc_angle scenario sbl user_i rest h = Inr (h', out)"
      by (simp add: capacity_remaining_def counter_def)
    from Cons.IH[OF this] False show ?thesis
      by (simp add: first_free_Cons)
  next
    case True
    then have cap: "\<not> ints h (total_sat_beam_count beam_entry) \<ge> BEAMS_PER_SATELLITE"
      by (simp add: capacity_remaining_def counter_def be_slot)
    from Cons.prems be cap obtain sat_pos user_pos where
      sp: "vec_at (scenario SATS_KEY) sat_i = Inr sat_pos" and
      up: "vec_at (scenario USER_KEY) user_i = Inr user_pos"
      by (auto split: sum.splits)
    then have sp_eq: "sat_pos = scenario SATS_KEY ! nat sat_i" "nat sat_i < length (scenario SATS_KEY)"
      and up_eq: "user_pos = scenario USER_KEY ! nat user_i" "0 \<le> user_i"
        "nat user_i < length (scenario USER_KEY)"
      by (auto simp: vec_at_Inr)
    from Cons.prems be cap sp up obtain h1 out1 where
      cl: "color_loop calc_angle sbl sat_i user_i sat_pos user_pos 0 h = Inr (h1, out1)"
      by (auto split: sum.splits)
    from be cap sp up cl have step:
      "sat_loop calc_angle scenario sbl user_i (sat_i # rest) h =
         (case out1 of Some a \<Rightarrow> Inr (h1, out1)
          | None \<Rightarrow> sat_loop calc_angle scenario sbl user_i rest h1)"
      by (simp split: option.splits)
    have pred: "(\<lambda>k. \<not> self_interference calc_angle sat_pos user_pos
                        (vectors h (beam_list (slot sbl sat_i k))))
        = (\<lambda>c. \<not> conflicts calc_angle scenario sbl h sat_i c (scenario USER_KEY ! nat user_i))"
      by (simp add: conflicts_def self_interference_list_ex sp_eq up_eq)
    show ?thesis
    proof (cases "find (\<lambda>c. \<not> conflicts calc_angle scenario sbl h sat_i c
        (scenario USER_KEY ! nat user_i)) [0 ..< length COLOR_IDS]")
      case None
      with color_loop_find[OF cl] have "h1 = h" "out1 = None"
        by (simp_all add: pred)
      with Cons.prems step have
        "sat_loop calc_angle scenario sbl user_i rest h = Inr (h', out)"
        by simp
      from Cons.IH[OF this] True None show ?thesis
        by (simp add: first_free_Cons)
    next
      case (Some k)
      with color_loop_find[OF cl] have
        r: "h1 = commit h (slot sbl sat_i k) user_pos"
          "out1 = Some (event h1 (slot sbl sat_i k) user_i)"
          "sat_id (slot sbl sat_i k) = sat_i" "0 \<le> sat_i"
          "nat (sat_i * int COLORS_PER_SATELLITE + int k) < length sbl"
        by (simp_all add: pred)
      from Cons.prems r(2) have "Inr (h1, out1) = (Inr (h', out) :: error + _)"
        unfolding step by auto
      then have "h' = h1" "out = out1"
        by simp_all
      with r True Some sp_eq up_eq show ?thesis
        by (simp add: first_free_Cons)
    qed
  qed
qed

lemma find_SomeD: "find P xs = Some x \<Longrightarrow> P x \<and> x \<in> set xs"
  by (auto simp: find_Some_iff)

lemma first_free_SomeD:
  assumes "first_free calc_angle scenario sbl h cand sats = Some (sat, c)"
  shows "sat \<in> set sats" "c < length COLOR_IDS" "capacity_remaining h sbl sat"
    "\<not> conflicts calc_angle scenario sbl h sat c cand"
  using find_SomeD[OF assms[unfolded first_free_def]] by auto

text \<open>One user: nothing changes, or one slot with capacity and without conflict is committed.\<close>

lemma sat_loop_cases:
  assumes "sat_loop calc_angle scenario sbl user_i sats h = Inr (h', out)"
  obtains (unserved) "h' = h" "out = None"
  | (served) sat c where "sat \<in> set sats" "c < length COLOR_IDS"
      "capacity_remaining h sbl sat"
      "\<not> conflicts calc_angle scenario sbl h sat c (scenario USER_KEY ! nat user_i)"
      "h' = commit h (slot sbl sat c) (scenario USER_KEY ! nat user_i)"
      "out = Some (event h' (slot sbl sat c) user_i)"
      "sat_id (slot sbl sat c) = sat" "0 \<le> sat"
      "nat (sat * int COLORS_PER_SATELLITE + int c) < length sbl"
      "nat sat < length (scenario SATS_KEY)"
      "0 \<le> user_i" "nat user_i < length (scenario USER_KEY)"
proof (cases "first_free calc_angle scenario sbl h (scenario USER_KEY ! nat user_i) sats")
  case None
  with sat_loop_first_free[OF assms] show ?thesis
    by (auto intro: unserved)
next
  case (Some p)
  obtain sat c where p: "p = (sat, c)"
    by (cases p)
  from sat_loop_first_free[OF assms] first_free_SomeD[OF Some[unfolded p]] Some p show ?thesis
    by (auto intro: served)
qed

lemma length_COLOR_IDS: "length COLOR_IDS = 4"
  by (simp add: COLOR_IDS_def)

lemma slot_index:
  "0 \<le> sat \<Longrightarrow> nat (sat * int COLORS_PER_SATELLITE + int c) = nat sat * 4 + c"
  by (simp add: COLORS_PER_SATELLITE_def nat_add_distrib nat_mult_distrib)

lemma wf_slot:
  assumes "wf_sat_beam_list sbl" "0 \<le> sat" "c < length COLOR_IDS"
    "nat (sat * int COLORS_PER_SATELLITE + int c) < length sbl"
  shows "beam_list (slot sbl sat c) = nat sat * 4 + c"
    and "total_sat_beam_count (slot sbl sat c) = nat sat"
proof -
  let ?i = "nat (sat * int COLORS_PER_SATELLITE + int c)"
  have i: "?i = nat sat * 4 + c"
    using assms(2) by (rule slot_index)
  from assms(1,4) have "beam_list (sbl ! ?i) = ?i"
    "total_sat_beam_count (sbl ! ?i) = ?i div COLORS_PER_SATELLITE"
    by (simp_all add: wf_sat_beam_list_def list_all_iff)
  then have "beam_list (slot sbl sat c) = nat sat * 4 + c"
    "total_sat_beam_count (slot sbl sat c) = (nat sat * 4 + c) div 4"
    unfolding slot_def i by (simp_all add: COLORS_PER_SATELLITE_def)
  moreover from assms(3) have "(nat sat * 4 + c) div 4 = nat sat"
    by (simp add: length_COLOR_IDS)
  ultimately show "beam_list (slot sbl sat c) = nat sat * 4 + c"
    and "total_sat_beam_count (slot sbl sat c) = nat sat"
    by simp_all
qed

lemma wf_group_in_range:
  assumes "wf_sat_beam_list sbl" "0 \<le> sat" "c < length COLOR_IDS"
    "nat (sat * int COLORS_PER_SATELLITE + int c) < length sbl" "c' < length COLOR_IDS"
  shows "nat (sat * int COLORS_PER_SATELLITE + int c') < length sbl"
proof -
  from assms(1) obtain n where n: "length sbl = 4 * n"
    by (auto simp: wf_sat_beam_list_def COLORS_PER_SATELLITE_def)
  define m where "m = nat sat"
  from assms(3,4,5) n have "m * 4 + c' < length sbl"
    unfolding slot_index[OF assms(2)] length_COLOR_IDS m_def[symmetric] by arith
  then have "nat sat * 4 + c' < length sbl"
    by (simp add: m_def)
  then show ?thesis
    by (simp add: slot_index[OF assms(2)])
qed


section \<open>The capacity invariant\<close>

lemma sat_ids_iff:
  "sat \<in> set (sat_ids sbl) \<longleftrightarrow> 0 \<le> sat \<and> nat sat < length sbl div 4"
  by (auto simp: sat_ids_def COLORS_PER_SATELLITE_def image_iff intro: bexI[of _ "nat sat"])

lemma sat_ids_slot_range:
  assumes "wf_sat_beam_list sbl" "sat \<in> set (sat_ids sbl)" "c < length COLOR_IDS"
  shows "nat (sat * int COLORS_PER_SATELLITE + int c) < length sbl"
proof -
  from assms(2) have s: "0 \<le> sat" "nat sat < length sbl div 4"
    by (simp_all add: sat_ids_iff)
  define m where "m = nat sat"
  from s(2) assms(3) have "m * 4 + c < length sbl"
    unfolding m_def[symmetric] length_COLOR_IDS by arith
  then show ?thesis
    by (simp add: slot_index[OF s(1)] m_def)
qed

lemma served_sat_ids:
  assumes "wf_sat_beam_list sbl" "0 \<le> sat"
    "nat (sat * int COLORS_PER_SATELLITE + int c) < length sbl"
  shows "sat \<in> set (sat_ids sbl)"
proof -
  define m where "m = nat sat"
  from assms(1) obtain n where n: "length sbl = 4 * n"
    by (auto simp: wf_sat_beam_list_def COLORS_PER_SATELLITE_def)
  from assms(3) have "m * 4 + c < length sbl"
    by (simp add: slot_index[OF assms(2)] m_def)
  with n have "m < length sbl div 4"
    by simp
  with assms(2) show ?thesis
    by (simp add: sat_ids_iff m_def)
qed

lemma wf_counter:
  assumes "wf_sat_beam_list sbl" "sat \<in> set (sat_ids sbl)"
  shows "counter h sbl sat = ints h (nat sat)"
proof -
  from assms(2) have s: "0 \<le> sat"
    by (simp add: sat_ids_iff)
  have "0 < length COLOR_IDS"
    by (simp add: length_COLOR_IDS)
  from wf_slot(2)[OF assms(1) s this sat_ids_slot_range[OF assms this]] show ?thesis
    by (simp add: counter_def)
qed

lemma wf_slot_sizes:
  assumes "wf_sat_beam_list sbl" "sat \<in> set (sat_ids sbl)"
  shows "slot_sizes h sbl sat =
    int (length (vectors h (nat sat * 4))) + int (length (vectors h (nat sat * 4 + 1)))
    + int (length (vectors h (nat sat * 4 + 2))) + int (length (vectors h (nat sat * 4 + 3)))"
proof -
  from assms(2) have s: "0 \<le> sat"
    by (simp add: sat_ids_iff)
  have "beam_list (slot sbl sat c) = nat sat * 4 + c" if "c < 4" for c
    using wf_slot(1)[OF assms(1) s _ sat_ids_slot_range[OF assms]] that
    by (simp add: length_COLOR_IDS)
  moreover have "[0 ..< 4] = [0, 1, 2, Suc 2]"
    by (simp add: upt_rec)
  ultimately show ?thesis
    by (simp add: slot_sizes_def length_COLOR_IDS)
qed

lemma commit_wf:
  assumes "wf_sat_beam_list sbl" "0 \<le> sat" "c < length COLOR_IDS"
    "nat (sat * int COLORS_PER_SATELLITE + int c) < length sbl"
  shows "ints (commit h (slot sbl sat c) p) = (ints h)(nat sat := ints h (nat sat) + 1)"
    and "vectors (commit h (slot sbl sat c) p)
      = (vectors h)(nat sat * 4 + c := vectors h (nat sat * 4 + c) @ [p])"
  by (simp_all add: commit_def wf_slot[OF assms])

lemma commit_capacity_invariant:
  assumes wf: "wf_sat_beam_list sbl" and sat: "0 \<le> sat" and c: "c < length COLOR_IDS"
    and rng: "nat (sat * int COLORS_PER_SATELLITE + int c) < length sbl"
    and cap: "capacity_remaining h sbl sat"
    and inv: "capacity_invariant h sbl"
  shows "capacity_invariant (commit h (slot sbl sat c) p) sbl"
  unfolding capacity_invariant_def list_all_iff
proof (intro ballI)
  fix s assume s: "s \<in> set (sat_ids sbl)"
  let ?h = "commit h (slot sbl sat c) p"
  from inv s have old: "counter h sbl s = slot_sizes h sbl s" "counter h sbl s \<le> BEAMS_PER_SATELLITE"
    by (auto simp: capacity_invariant_def list_all_iff)
  from s have s0: "0 \<le> s"
    by (simp add: sat_ids_iff)
  from c have c4: "c < 4"
    by (simp add: length_COLOR_IDS)
  have eqs: "counter ?h sbl s = ints ?h (nat s)" "counter h sbl s = ints h (nat s)"
    by (rule wf_counter[OF wf s])+
  have szs: "slot_sizes ?h sbl s =
      int (length (vectors ?h (nat s * 4))) + int (length (vectors ?h (nat s * 4 + 1)))
      + int (length (vectors ?h (nat s * 4 + 2))) + int (length (vectors ?h (nat s * 4 + 3)))"
    "slot_sizes h sbl s =
      int (length (vectors h (nat s * 4))) + int (length (vectors h (nat s * 4 + 1)))
      + int (length (vectors h (nat s * 4 + 2))) + int (length (vectors h (nat s * 4 + 3)))"
    by (rule wf_slot_sizes[OF wf s])+
  note cw = commit_wf[OF wf sat c rng, of h p]
  note old' = old[unfolded eqs szs]
  show "counter ?h sbl s = slot_sizes ?h sbl s \<and> counter ?h sbl s \<le> BEAMS_PER_SATELLITE"
    unfolding eqs szs cw
  proof (cases "s = sat")
    case True
    from cap eqs(2) have "ints h (nat s) < BEAMS_PER_SATELLITE"
      by (simp add: capacity_remaining_def True)
    moreover from c4 have "c = 0 \<or> c = 1 \<or> c = 2 \<or> c = 3"
      by arith
    ultimately show "((ints h)(nat sat := ints h (nat sat) + 1)) (nat s) =
      int (length (((vectors h)(nat sat * 4 + c := vectors h (nat sat * 4 + c) @ [p])) (nat s * 4))) +
      int (length (((vectors h)(nat sat * 4 + c := vectors h (nat sat * 4 + c) @ [p])) (nat s * 4 + 1))) +
      int (length (((vectors h)(nat sat * 4 + c := vectors h (nat sat * 4 + c) @ [p])) (nat s * 4 + 2))) +
      int (length (((vectors h)(nat sat * 4 + c := vectors h (nat sat * 4 + c) @ [p])) (nat s * 4 + 3))) \<and>
      ((ints h)(nat sat := ints h (nat sat) + 1)) (nat s) \<le> BEAMS_PER_SATELLITE"
      using old' True by auto
  next
    case False
    with s0 sat have ne: "nat s \<noteq> nat sat"
      by simp
    with c4 have "nat s * 4 \<noteq> nat sat * 4 + c" "nat s * 4 + 1 \<noteq> nat sat * 4 + c"
      "nat s * 4 + 2 \<noteq> nat sat * 4 + c" "nat s * 4 + 3 \<noteq> nat sat * 4 + c"
      by arith+
    with old' ne show "((ints h)(nat sat := ints h (nat sat) + 1)) (nat s) =
      int (length (((vectors h)(nat sat * 4 + c := vectors h (nat sat * 4 + c) @ [p])) (nat s * 4))) +
      int (length (((vectors h)(nat sat * 4 + c := vectors h (nat sat * 4 + c) @ [p])) (nat s * 4 + 1))) +
      int (length (((vectors h)(nat sat * 4 + c := vectors h (nat sat * 4 + c) @ [p])) (nat s * 4 + 2))) +
      int (length (((vectors h)(nat sat * 4 + c := vectors h (nat sat * 4 + c) @ [p])) (nat s * 4 + 3))) \<and>
      ((ints h)(nat sat := ints h (nat sat) + 1)) (nat s) \<le> BEAMS_PER_SATELLITE"
      by simp
  qed
qed

lemma sat_loop_capacity_invariant:
  assumes "sat_loop calc_angle scenario sbl user_i sats h = Inr (h', out)"
    and "wf_sat_beam_list sbl" and "capacity_invariant h sbl"
  shows "capacity_invariant h' sbl"
  using assms(1)
proof (cases rule: sat_loop_cases)
  case unserved
  with assms(3) show ?thesis by simp
next
  case (served sat c)
  from commit_capacity_invariant[OF assms(2) served(8) served(2) served(9) served(3) assms(3)]
  show ?thesis
    by (simp add: served(5))
qed

lemma assign_capacity_invariant:
  assumes "assign_beams_and_print calc_angle scenario us sbl h = (h', outs, r)"
    and "wf_sat_beam_list sbl" and "capacity_invariant h sbl"
  shows "capacity_invariant h' sbl"
  using assms
proof (induction us arbitrary: h h' outs r)
  case Nil
  then show ?case by simp
next
  case (Cons u us)
  show ?case
  proof (cases "sat_loop calc_angle scenario sbl (user_id u) (visible_sats u) h")
    case (Inl e)
    with Cons.prems show ?thesis by simp
  next
    case (Inr p)
    obtain h1 out where p: "p = (h1, out)"
      by (cases p)
    from sat_loop_capacity_invariant[OF Inr[unfolded p] Cons.prems(2,3)]
    have inv1: "capacity_invariant h1 sbl" .
    obtain h2 outs2 r2 where rest: "assign_beams_and_print calc_angle scenario us sbl h1 = (h2, outs2, r2)"
      by (cases "assign_beams_and_print calc_angle scenario us sbl h1")
    with Cons.prems(1) Inr p have "h' = h2"
      by simp
    with Cons.IH[OF rest Cons.prems(2) inv1] show ?thesis
      by simp
  qed
qed


section \<open>The state built by reading the file\<close>

lemma upt_4: "[0 ..< COLORS_PER_SATELLITE] = [0, 1, 2, 3]"
  by (simp add: COLORS_PER_SATELLITE_def upt_rec)

lemma sat_entry_loop_4:
  "sat_entry_loop stoi parts ptr [0 ..< COLORS_PER_SATELLITE] (sbl, h) =
     (case stoi (parts ! 1) of
        None \<Rightarrow> Inl ConversionException
      | Some n \<Rightarrow>
          Inr (sbl @ map (\<lambda>i. \<lparr>sat_id = n - 1, color = COLOR_IDS ! i,
                               beam_list = next_vector h + i, total_sat_beam_count = ptr\<rparr>)
                       [0, 1, 2, 3],
               h\<lparr>vectors := (vectors h)(next_vector h := [], next_vector h + 1 := [],
                              next_vector h + 2 := [], next_vector h + 3 := []),
                 next_vector := next_vector h + 4\<rparr>))"
  by (simp add: upt_4 new_vector_def eval_nat_numeral split: option.splits)

lemma wf_append_group:
  assumes "wf_sat_beam_list sbl"
    and "length es = 4"
    and "\<forall>i < 4. beam_list (es ! i) = length sbl + i
          \<and> total_sat_beam_count (es ! i) = length sbl div 4"
  shows "wf_sat_beam_list (sbl @ es)"
proof -
  from assms(1) obtain n where n: "length sbl = 4 * n"
    by (auto simp: wf_sat_beam_list_def COLORS_PER_SATELLITE_def)
  have "beam_list ((sbl @ es) ! i) = i \<and> total_sat_beam_count ((sbl @ es) ! i) = i div 4"
    if "i < length sbl + 4" for i
  proof (cases "i < length sbl")
    case True
    with assms(1) show ?thesis
      by (simp add: wf_sat_beam_list_def list_all_iff nth_append COLORS_PER_SATELLITE_def)
  next
    case False
    with that have k: "i - length sbl < 4" "i = length sbl + (i - length sbl)"
      by simp_all
    with assms(3) n False show ?thesis
      by (simp add: nth_append)
  qed
  with assms(2) n show ?thesis
    by (simp add: wf_sat_beam_list_def list_all_iff COLORS_PER_SATELLITE_def)
qed


lemma parse_line_skipped: "skipped line_buff \<Longrightarrow> parse_line stof stoi line_buff st = Parsed st"
  by (simp add: parse_line_def split: prod.splits)

lemma parse_line_short:
  "\<not> skipped line_buff \<Longrightarrow> length (split line_buff CHR '' '') \<noteq> 5 \<Longrightarrow>
   parse_line stof stoi line_buff st = CouldntRead line_buff"
  by (simp add: parse_line_def Let_def split: prod.splits)

text \<open>A line of five tokens: the conversions, then the assertion, then the pushes.\<close>

lemma parse_line_five:
  assumes "\<not> skipped line_buff" and "split line_buff CHR '' '' = parts" and "length parts = 5"
  shows "parse_line stof stoi line_buff (scenario, sbl, h) =
    (case stof (parts ! 2) of None \<Rightarrow> Crashed ConversionException | Some x \<Rightarrow>
     case stof (parts ! 3) of None \<Rightarrow> Crashed ConversionException | Some y \<Rightarrow>
     case stof (parts ! 4) of None \<Rightarrow> Crashed ConversionException | Some z \<Rightarrow>
       if parts ! 0 \<noteq> USER_KEY \<and> parts ! 0 \<noteq> SATS_KEY \<and> parts ! 0 \<noteq> INTERFERER_KEY
       then Crashed RoleAssertion
       else if parts ! 0 = SATS_KEY then
         (case stoi (parts ! 1) of None \<Rightarrow> Crashed ConversionException | Some n \<Rightarrow>
            Parsed (scenario (SATS_KEY := scenario SATS_KEY @ [(x, y, z)]),
              sbl @ map (\<lambda>i. \<lparr>sat_id = n - 1, color = COLOR_IDS ! i,
                               beam_list = next_vector h + i,
                               total_sat_beam_count = next_int h\<rparr>) [0, 1, 2, 3],
              h\<lparr>ints := (ints h)(next_int h := 0), next_int := Suc (next_int h),
                vectors := (vectors h)(next_vector h := [], next_vector h + 1 := [],
                              next_vector h + 2 := [], next_vector h + 3 := []),
                next_vector := next_vector h + 4\<rparr>))
       else Parsed (scenario (parts ! 0 := scenario (parts ! 0) @ [(x, y, z)]), sbl, h))"
  using assms
  by (simp add: parse_line_def Let_def sat_entry_loop_4 new_int_def split: option.splits)

lemma parse_line_Parsed_cases:
  assumes "parse_line stof stoi line_buff (scenario, sbl, h) = Parsed st'"
  obtains (skip) "st' = (scenario, sbl, h)" "skipped line_buff"
  | (other) parts x y z where "parts = split line_buff CHR '' ''" "length parts = 5"
      "parts ! 0 \<noteq> SATS_KEY"
      "st' = (scenario (parts ! 0 := scenario (parts ! 0) @ [(x, y, z)]), sbl, h)"
      "\<not> skipped line_buff"
  | (sat) parts x y z n where "parts = split line_buff CHR '' ''" "length parts = 5"
      "parts ! 0 = SATS_KEY" "stoi (parts ! 1) = Some n"
      "st' = (scenario (SATS_KEY := scenario SATS_KEY @ [(x, y, z)]),
              sbl @ map (\<lambda>i. \<lparr>sat_id = n - 1, color = COLOR_IDS ! i,
                               beam_list = next_vector h + i,
                               total_sat_beam_count = next_int h\<rparr>) [0, 1, 2, 3],
              h\<lparr>ints := (ints h)(next_int h := 0), next_int := Suc (next_int h),
                vectors := (vectors h)(next_vector h := [], next_vector h + 1 := [],
                              next_vector h + 2 := [], next_vector h + 3 := []),
                next_vector := next_vector h + 4\<rparr>)"
      "\<not> skipped line_buff"
proof (cases "skipped line_buff")
  case True
  with assms show ?thesis
    by (simp add: parse_line_skipped skip)
next
  case False
  show ?thesis
  proof (cases "length (split line_buff CHR '' '') = 5")
    case short: False
    with False assms show ?thesis
      by (simp add: parse_line_short)
  next
    case True
    note five = parse_line_five[OF False refl True, of stof stoi scenario sbl h]
    let ?parts = "split line_buff CHR '' ''"
    from assms[unfolded five] obtain x y z where
      xyz: "stof (?parts ! 2) = Some x" "stof (?parts ! 3) = Some y" "stof (?parts ! 4) = Some z"
      by (auto split: option.splits)
    show ?thesis
    proof (cases "?parts ! 0 = SATS_KEY")
      case s: True
      with assms[unfolded five] xyz obtain n where n: "stoi (?parts ! 1) = Some n"
        by (auto split: option.splits if_splits)
      with assms[unfolded five] xyz s have "st' = (scenario (SATS_KEY := scenario SATS_KEY @ [(x, y, z)]),
              sbl @ map (\<lambda>i. \<lparr>sat_id = n - 1, color = COLOR_IDS ! i,
                               beam_list = next_vector h + i,
                               total_sat_beam_count = next_int h\<rparr>) [0, 1, 2, 3],
              h\<lparr>ints := (ints h)(next_int h := 0), next_int := Suc (next_int h),
                vectors := (vectors h)(next_vector h := [], next_vector h + 1 := [],
                              next_vector h + 2 := [], next_vector h + 3 := []),
                next_vector := next_vector h + 4\<rparr>)"
        by (simp split: if_splits)
      with True s n False show ?thesis
        by (intro sat[of ?parts n x y z]) simp_all
    next
      case s: False
      with assms[unfolded five] xyz have
        "st' = (scenario (?parts ! 0 := scenario (?parts ! 0) @ [(x, y, z)]), sbl, h)"
        by (simp split: if_splits)
      with True s False show ?thesis
        by (intro other[of ?parts x y z]) simp_all
    qed
  qed
qed

lemma parse_line_invariant:
  assumes "parse_line stof stoi line_buff st = Parsed st'" and "parse_invariant st"
  shows "parse_invariant st'"
proof -
  obtain scenario sbl h where st: "st = (scenario, sbl, h)"
    by (cases st)
  from assms(2) have inv: "wf_sat_beam_list sbl" "next_vector h = length sbl"
    "length sbl = 4 * next_int h" "length (scenario SATS_KEY) = next_int h"
    "\<And>a. vectors h a = []" "\<And>a. ints h a = 0"
    "\<And>i. i < length sbl \<Longrightarrow> color (sbl ! i) = COLOR_IDS ! (i mod 4)"
    by (simp_all add: parse_invariant_def st COLORS_PER_SATELLITE_def)
  from assms(1)[unfolded st] show ?thesis
  proof (cases rule: parse_line_Parsed_cases)
    case skip
    with assms(2) st show ?thesis by simp
  next
    case (other parts x y z)
    with assms(2) st show ?thesis
      by (simp add: parse_invariant_def)
  next
    case (sat parts x y z n)
    let ?es = "map (\<lambda>i. \<lparr>sat_id = n - 1, color = COLOR_IDS ! i, beam_list = next_vector h + i,
                        total_sat_beam_count = next_int h\<rparr>) [0, 1, 2, 3 :: nat]"
    have "\<forall>i<4. beam_list (?es ! i) = length sbl + i
        \<and> total_sat_beam_count (?es ! i) = length sbl div 4"
    proof (intro allI impI)
      fix i :: nat
      assume "i < 4"
      then consider "i = 0" | "i = 1" | "i = 2" | "i = 3"
        by arith
      then show "beam_list (?es ! i) = length sbl + i
          \<and> total_sat_beam_count (?es ! i) = length sbl div 4"
        using inv(2,3) by cases simp_all
    qed
    with inv(1) have wf': "wf_sat_beam_list (sbl @ ?es)"
      by (intro wf_append_group) simp_all
    have col: "color ((sbl @ ?es) ! i) = COLOR_IDS ! (i mod 4)" if "i < length sbl + 4" for i
    proof (cases "i < length sbl")
      case True
      with inv(7) show ?thesis
        by (simp add: nth_append)
    next
      case False
      with that have "i - length sbl < 4"
        by simp
      then have "i - length sbl = 0 \<or> i - length sbl = 1 \<or> i - length sbl = 2
          \<or> i - length sbl = 3"
        by arith
      moreover have "i mod 4 = (i - length sbl) mod 4"
      proof -
        from False have "i = 4 * next_int h + (i - length sbl)"
          by (simp add: inv(3)[symmetric])
        then have "i mod 4 = (4 * next_int h + (i - length sbl)) mod 4"
          by simp
        then show ?thesis
          by simp
      qed
      ultimately show ?thesis
        using False by (auto simp: nth_append)
    qed
    have "next_vector h + 4 = length (sbl @ ?es)"
      "length (sbl @ ?es) = COLORS_PER_SATELLITE * Suc (next_int h)"
      "length ((scenario (SATS_KEY := scenario SATS_KEY @ [(x, y, z)])) SATS_KEY) = Suc (next_int h)"
      by (simp_all add: inv(2,3,4) COLORS_PER_SATELLITE_def)
    moreover have "\<forall>i < length (sbl @ ?es).
        color ((sbl @ ?es) ! i) = COLOR_IDS ! (i mod COLORS_PER_SATELLITE)"
      using col by (simp add: COLORS_PER_SATELLITE_def)
    ultimately show ?thesis
      unfolding sat parse_invariant_def prod.case
      using wf' by (simp add: inv(5,6))
  qed
qed

lemma parse_lines_invariant:
  "parse_lines stof stoi lines st = Parsed st' \<Longrightarrow> parse_invariant st \<Longrightarrow> parse_invariant st'"
proof (induction lines arbitrary: st)
  case Nil
  then show ?case by simp
next
  case (Cons l ls)
  then show ?case
    by (auto split: parsed.splits dest: parse_line_invariant)
qed

lemma parse_invariant_initial: "parse_invariant initial_state"
  by (simp add: parse_invariant_def initial_state_def empty_heap_def wf_sat_beam_list_def)

lemma parsed_invariant:
  "parse_lines stof stoi lines initial_state = Parsed st \<Longrightarrow> parse_invariant st"
  by (rule parse_lines_invariant[OF _ parse_invariant_initial])

lemma parse_invariant_capacity:
  assumes "parse_invariant (scenario, sbl, h)"
  shows "wf_sat_beam_list sbl" and "capacity_invariant h sbl"
proof -
  from assms show wf: "wf_sat_beam_list sbl"
    by (simp add: parse_invariant_def)
  from assms have z: "\<And>a. vectors h a = []" "\<And>a. ints h a = 0"
    by (simp_all add: parse_invariant_def)
  show "capacity_invariant h sbl"
    unfolding capacity_invariant_def list_all_iff
    by (simp add: counter_def slot_sizes_def z BEAMS_PER_SATELLITE_def)
qed


section \<open>The worked scenario, evaluated\<close>

lemma pi_ge_three: "3 \<le> pi"
proof -
  have "sin (pi / 6) \<le> pi / 6"
    by (rule sin_x_le_x) simp
  then show ?thesis
    by (simp add: sin_30)
qed

lemma example_split:
  "split ''sat 1 0 0 2'' CHR '' '' = [''sat'', ''1'', ''0'', ''0'', ''2'']"
  "split ''user 1 0 0 1'' CHR '' '' = [''user'', ''1'', ''0'', ''0'', ''1'']"
  "split ''user 2 1 0 2'' CHR '' '' = [''user'', ''2'', ''1'', ''0'', ''2'']"
  "split ''user 3 2 0 2'' CHR '' '' = [''user'', ''3'', ''2'', ''0'', ''2'']"
  by (simp_all add: split.simps)

lemma example_stof:
  "stof_int ''0'' = Some 0" "stof_int ''1'' = Some 1" "stof_int ''2'' = Some 2"
  by (simp_all add: stof_int_def isdigit_def)

lemma example_stoi:
  "stoi_std ''1'' = Some 1"
  by (simp_all add: stoi_std_def isdigit_def isspace_def)

lemma example_parse:
  "parse_lines stof_int stoi_std example_lines initial_state
     = Parsed (example_scenario, example_sat_beam_list, example_heap)"
proof -
  have e: "(\<lambda>_. c)(x := c) = (\<lambda>_. c)" for c :: 'a and x :: 'b
    by (rule ext) simp
  show ?thesis
    by (simp add: example_lines_def initial_state_def empty_heap_def parse_line_skipped skipped_def
      parse_line_five[OF _ example_split(1)] parse_line_five[OF _ example_split(2)]
      parse_line_five[OF _ example_split(3)] parse_line_five[OF _ example_split(4)]
      example_stof example_stoi USER_KEY_def SATS_KEY_def INTERFERER_KEY_def COLOR_IDS_def
      example_scenario_def example_sat_beam_list_def example_heap_def e)
qed


lemma example_angles:
  "angle_lt (calc_angle_exact (0, 0, 2) (1, 0, 2) (0, 0, 1)) SELF_INTERFERENCE_MAX = False"
  "angle_lt (calc_angle_exact (0, 0, 2) (2, 0, 2) (0, 0, 1)) SELF_INTERFERENCE_MAX = False"
  "angle_lt (calc_angle_exact (0, 0, 2) (2, 0, 2) (1, 0, 2)) SELF_INTERFERENCE_MAX = True"
  using pi_ge_three
  by (simp_all add: calc_angle_exact.simps MIN_macro_def MAX_macro_def SELF_INTERFERENCE_MAX_def)

lemma example_run:
  "assign_beams_and_print calc_angle_exact example_scenario example_users example_sat_beam_list
     example_heap = (example_final_heap, example_events, None)"
  by (simp add: example_users_def example_scenario_def example_sat_beam_list_def example_heap_def
      example_final_heap_def example_events_def vec_at_def color_loop.simps example_angles
      USER_KEY_def SATS_KEY_def COLORS_PER_SATELLITE_def COLOR_IDS_def BEAMS_PER_SATELLITE_def)


lemma parsed_sat_ids:
  assumes "parse_invariant (scenario, sbl, h)"
  shows "sat \<in> set (sat_ids sbl) \<longleftrightarrow> 0 \<le> sat \<and> sat < int (length (scenario SATS_KEY))"
proof -
  from assms have "length sbl = 4 * length (scenario SATS_KEY)"
    by (simp add: parse_invariant_def COLORS_PER_SATELLITE_def)
  then show ?thesis
    by (auto simp: sat_ids_iff)
qed


section \<open>The counts reported for a satellite\<close>

text \<open>The counts reported for one satellite in a list of printed lines.\<close>

lemma commit_counter:
  assumes wf: "wf_sat_beam_list sbl" and sat0: "0 \<le> sat0" and c: "c < length COLOR_IDS"
    and rng: "nat (sat0 * int COLORS_PER_SATELLITE + int c) < length sbl"
    and s: "sat \<in> set (sat_ids sbl)"
  shows "counter (commit h (slot sbl sat0 c) p) sbl sat
    = (if sat = sat0 then counter h sbl sat + 1 else counter h sbl sat)"
proof -
  from s have "0 \<le> sat"
    by (simp add: sat_ids_iff)
  with sat0 have "nat sat = nat sat0 \<longleftrightarrow> sat = sat0"
    by auto
  then show ?thesis
    unfolding wf_counter[OF wf s] commit_wf(1)[OF wf sat0 c rng] by simp
qed

lemma upto_append: "a \<le> b \<Longrightarrow> b \<le> c \<Longrightarrow> [a + 1 .. b] @ [b + 1 .. c] = [a + 1 .. (c::int)]"
proof (cases "a = b")
  case True
  then show ?thesis by simp
next
  case False
  assume "a \<le> b" "b \<le> c"
  with False show ?thesis
    by (simp add: upto_split2[of "a + 1" b c])
qed

lemma sat_loop_reported:
  assumes run: "sat_loop calc_angle scenario sbl user_i sats h = Inr (h', out)"
    and wf: "wf_sat_beam_list sbl" and s: "sat \<in> set (sat_ids sbl)"
  shows "map out_beam (filter (\<lambda>a. out_sat a = sat + 1) (case out of None \<Rightarrow> [] | Some a \<Rightarrow> [a]))
      = [counter h sbl sat + 1 .. counter h' sbl sat]"
    and "counter h sbl sat \<le> counter h' sbl sat"
  using run
proof (atomize (full), cases rule: sat_loop_cases)
  case unserved
  then show "map out_beam (filter (\<lambda>a. out_sat a = sat + 1) (case out of None \<Rightarrow> [] | Some a \<Rightarrow> [a]))
      = [counter h sbl sat + 1 .. counter h' sbl sat] \<and> counter h sbl sat \<le> counter h' sbl sat"
    by simp
next
  case (served sat0 c)
  note cc = commit_counter[OF wf served(8) served(2) served(9) s, of h "scenario USER_KEY ! nat user_i"]
  have s0: "sat0 \<in> set (sat_ids sbl)"
    by (rule served_sat_ids[OF wf served(8,9)])
  have "out_beam (event h' (slot sbl sat0 c) user_i) = counter h' sbl sat0"
    using wf_slot(2)[OF wf served(8) served(2) served(9)] wf_counter[OF wf s0, of h']
    by (simp add: event_def)
  moreover have "out_sat (event h' (slot sbl sat0 c) user_i) = sat0 + 1"
    by (simp add: event_def served(7))
  ultimately show "map out_beam (filter (\<lambda>a. out_sat a = sat + 1) (case out of None \<Rightarrow> [] | Some a \<Rightarrow> [a]))
      = [counter h sbl sat + 1 .. counter h' sbl sat] \<and> counter h sbl sat \<le> counter h' sbl sat"
    using cc by (auto simp: served(5,6))
qed

lemma assign_reported:
  assumes "assign_beams_and_print calc_angle scenario us sbl h = (h', outs, r)"
    and "wf_sat_beam_list sbl" and "sat \<in> set (sat_ids sbl)"
  shows "map out_beam (filter (\<lambda>a. out_sat a = sat + 1) outs)
      = [counter h sbl sat + 1 .. counter h' sbl sat]
    \<and> counter h sbl sat \<le> counter h' sbl sat"
  using assms
proof (induction us arbitrary: h h' outs r)
  case Nil
  then show ?case by simp
next
  case (Cons u us)
  show ?case
  proof (cases "sat_loop calc_angle scenario sbl (user_id u) (visible_sats u) h")
    case (Inl e)
    with Cons.prems show ?thesis by simp
  next
    case (Inr p)
    obtain h1 out where p: "p = (h1, out)"
      by (cases p)
    note step = sat_loop_reported[OF Inr[unfolded p] Cons.prems(2,3)]
    obtain h2 outs2 r2 where
      rest: "assign_beams_and_print calc_angle scenario us sbl h1 = (h2, outs2, r2)"
      by (cases "assign_beams_and_print calc_angle scenario us sbl h1")
    with Cons.prems(1) Inr p have eq: "h' = h2"
      "outs = (case out of None \<Rightarrow> [] | Some a \<Rightarrow> [a]) @ outs2"
      by simp_all
    from Cons.IH[OF rest Cons.prems(2,3)] have
      ih: "map out_beam (filter (\<lambda>a. out_sat a = sat + 1) outs2)
        = [counter h1 sbl sat + 1 .. counter h2 sbl sat]" "counter h1 sbl sat \<le> counter h2 sbl sat"
      by simp_all
    from step ih show ?thesis
      unfolding eq by (simp add: upto_append)
  qed
qed

section \<open>The separation invariant\<close>

lemma separated_snoc:
  "separated calc_angle v (xs @ [p]) \<longleftrightarrow>
     separated calc_angle v xs
     \<and> \<not> list_ex (\<lambda>t. angle_lt (calc_angle v p t) SELF_INTERFERENCE_MAX) xs"
proof
  assume a: "separated calc_angle v (xs @ [p])"
  have "separated calc_angle v xs"
    unfolding separated_def
  proof (intro allI impI)
    fix j i assume "j < length xs" "i < j"
    with a[unfolded separated_def, rule_format, of j i] show
      "\<not> angle_lt (calc_angle v (xs ! j) (xs ! i)) SELF_INTERFERENCE_MAX"
      by (simp add: nth_append)
  qed
  moreover have "\<not> list_ex (\<lambda>t. angle_lt (calc_angle v p t) SELF_INTERFERENCE_MAX) xs"
  proof
    assume "list_ex (\<lambda>t. angle_lt (calc_angle v p t) SELF_INTERFERENCE_MAX) xs"
    then obtain i where "i < length xs" "angle_lt (calc_angle v p (xs ! i)) SELF_INTERFERENCE_MAX"
      by (auto simp: list_ex_iff in_set_conv_nth)
    with a[unfolded separated_def, rule_format, of "length xs" i] show False
      by (simp add: nth_append)
  qed
  ultimately show "separated calc_angle v xs
     \<and> \<not> list_ex (\<lambda>t. angle_lt (calc_angle v p t) SELF_INTERFERENCE_MAX) xs" ..
next
  assume a: "separated calc_angle v xs
     \<and> \<not> list_ex (\<lambda>t. angle_lt (calc_angle v p t) SELF_INTERFERENCE_MAX) xs"
  show "separated calc_angle v (xs @ [p])"
    unfolding separated_def
  proof (intro allI impI)
    fix j i assume j: "j < length (xs @ [p])" and i: "i < j"
    show "\<not> angle_lt (calc_angle v ((xs @ [p]) ! j) ((xs @ [p]) ! i)) SELF_INTERFERENCE_MAX"
    proof (cases "j < length xs")
      case True
      with a i show ?thesis
        by (simp add: separated_def nth_append)
    next
      case False
      with j have "j = length xs"
        by simp
      with a i show ?thesis
        by (auto simp: nth_append list_ex_iff)
    qed
  qed
qed

lemma slot_address_inj:
  assumes "c < (4::nat)" "c' < 4"
  shows "m * 4 + c = m' * 4 + c' \<longleftrightarrow> m = m' \<and> c = c'"
  using assms by arith

lemma commit_separation_invariant:
  assumes wf: "wf_sat_beam_list sbl" and sat0: "0 \<le> sat0" and c0: "c0 < length COLOR_IDS"
    and rng: "nat (sat0 * int COLORS_PER_SATELLITE + int c0) < length sbl"
    and free: "\<not> conflicts calc_angle scenario sbl h sat0 c0 p"
    and p: "p \<in> set (scenario USER_KEY)"
    and inv: "separation_invariant calc_angle scenario h sbl"
  shows "separation_invariant calc_angle scenario (commit h (slot sbl sat0 c0) p) sbl"
  unfolding separation_invariant_def
proof (intro ballI allI impI)
  fix sat c
  assume s: "sat \<in> set (sat_ids sbl)" and c: "c < length COLOR_IDS"
  let ?h = "commit h (slot sbl sat0 c0) p"
  from s have s0: "0 \<le> sat"
    by (simp add: sat_ids_iff)
  note a = wf_slot(1)[OF wf s0 c sat_ids_slot_range[OF wf s c]]
  note a0 = wf_slot(1)[OF wf sat0 c0 rng]
  from inv s c have old:
    "separated calc_angle (scenario SATS_KEY ! nat sat) (vectors h (beam_list (slot sbl sat c)))"
    "set (vectors h (beam_list (slot sbl sat c))) \<subseteq> set (scenario USER_KEY)"
    by (simp_all add: separation_invariant_def)
  show "separated calc_angle (scenario SATS_KEY ! nat sat) (vectors ?h (beam_list (slot sbl sat c)))
      \<and> set (vectors ?h (beam_list (slot sbl sat c))) \<subseteq> set (scenario USER_KEY)"
  proof (cases "sat = sat0 \<and> c = c0")
    case True
    with free old p show ?thesis
      by (simp add: commit_def conflicts_def separated_snoc)
  next
    case False
    with s0 sat0 have "\<not> (nat sat = nat sat0 \<and> c = c0)"
      by auto
    with c c0 have "nat sat * 4 + c \<noteq> nat sat0 * 4 + c0"
      by (simp add: slot_address_inj length_COLOR_IDS)
    with old show ?thesis
      by (simp add: commit_def a a0)
  qed
qed

lemma sat_loop_separation_invariant:
  assumes "sat_loop calc_angle scenario sbl user_i sats h = Inr (h', out)"
    and "wf_sat_beam_list sbl" and "separation_invariant calc_angle scenario h sbl"
  shows "separation_invariant calc_angle scenario h' sbl"
  using assms(1)
proof (cases rule: sat_loop_cases)
  case unserved
  with assms(3) show ?thesis by simp
next
  case (served sat c)
  from served(12) have "scenario USER_KEY ! nat user_i \<in> set (scenario USER_KEY)"
    by simp
  from commit_separation_invariant[OF assms(2) served(8) served(2) served(9) served(4) this assms(3)]
  show ?thesis
    by (simp add: served(5))
qed

lemma assign_separation_invariant:
  assumes "assign_beams_and_print calc_angle scenario us sbl h = (h', outs, r)"
    and "wf_sat_beam_list sbl" and "separation_invariant calc_angle scenario h sbl"
  shows "separation_invariant calc_angle scenario h' sbl"
  using assms
proof (induction us arbitrary: h h' outs r)
  case Nil
  then show ?case by simp
next
  case (Cons u us)
  show ?case
  proof (cases "sat_loop calc_angle scenario sbl (user_id u) (visible_sats u) h")
    case (Inl e)
    with Cons.prems show ?thesis by simp
  next
    case (Inr p)
    obtain h1 out where p: "p = (h1, out)"
      by (cases p)
    from sat_loop_separation_invariant[OF Inr[unfolded p] Cons.prems(2,3)]
    have inv1: "separation_invariant calc_angle scenario h1 sbl" .
    obtain h2 outs2 r2 where
      rest: "assign_beams_and_print calc_angle scenario us sbl h1 = (h2, outs2, r2)"
      by (cases "assign_beams_and_print calc_angle scenario us sbl h1")
    with Cons.prems(1) Inr p have "h' = h2"
      by simp
    with Cons.IH[OF rest Cons.prems(2) inv1] show ?thesis
      by simp
  qed
qed

lemma parse_invariant_separation:
  assumes "parse_invariant (scenario, sbl, h)"
  shows "separation_invariant calc_angle scenario h sbl"
proof -
  from assms have "\<And>a. vectors h a = []"
    by (simp add: parse_invariant_def)
  then show ?thesis
    by (simp add: separation_invariant_def separated_def)
qed

section \<open>The angle in exact arithmetic\<close>

text \<open>
  In exact arithmetic the angle is symmetric in its two end points, it has a value
  unless an end point is the vertex, and the angle between a ray and itself is 0. These
  are facts of \<open>calc_angle_exact\<close>; they say nothing of how \<open>float\<close> rounds.
\<close>

lemma sum_squares3_eq_0_iff:
  "x ^ 2 + y ^ 2 + z ^ 2 = 0 \<longleftrightarrow> x = 0 \<and> y = 0 \<and> z = (0::real)"
proof
  assume e: "x ^ 2 + y ^ 2 + z ^ 2 = 0"
  have "0 \<le> x ^ 2" "0 \<le> y ^ 2" "0 \<le> z ^ 2"
    by simp_all
  with e have "x ^ 2 = 0" "y ^ 2 = 0" "z ^ 2 = 0"
    by linarith+
  then show "x = 0 \<and> y = 0 \<and> z = 0"
    by simp
qed simp

lemma calc_angle_exact_symmetric:
  "calc_angle_exact v a b = calc_angle_exact v b a"
  by (cases v; cases a; cases b)
    (simp add: calc_angle_exact.simps Let_def mult.commute disj_commute)

lemma calc_angle_exact_NaN_iff:
  "calc_angle_exact v a b = NaN \<longleftrightarrow> a = v \<or> b = v"
  by (cases v; cases a; cases b)
    (auto simp: calc_angle_exact.simps Let_def sum_squares3_eq_0_iff)

lemma calc_angle_exact_same_point:
  assumes "a \<noteq> v"
  shows "calc_angle_exact v a a = Deg 0"
proof -
  obtain v0 v1 v2 a0 a1 a2 where v: "v = (v0, v1, v2)" and a: "a = (a0, a1, a2)"
    by (cases v, cases a) auto
  define m where "m = sqrt ((a0 - v0) ^ 2 + (a1 - v1) ^ 2 + (a2 - v2) ^ 2)"
  from assms have "(a0 - v0) ^ 2 + (a1 - v1) ^ 2 + (a2 - v2) ^ 2 \<noteq> 0"
    by (simp add: sum_squares3_eq_0_iff v a)
  then have m0: "m \<noteq> 0"
    by (simp add: m_def)
  have msq: "m * m = (a0 - v0) ^ 2 + (a1 - v1) ^ 2 + (a2 - v2) ^ 2"
    by (simp add: m_def)
  have "(a0 - v0) / m * ((a0 - v0) / m) + (a1 - v1) / m * ((a1 - v1) / m)
      + (a2 - v2) / m * ((a2 - v2) / m)
      = ((a0 - v0) ^ 2 + (a1 - v1) ^ 2 + (a2 - v2) ^ 2) / (m * m)"
    by (simp add: power2_eq_square add_divide_distrib)
  also have "\<dots> = 1"
    using m0 by (simp add: msq[symmetric])
  finally have key: "(a0 - v0) / m * ((a0 - v0) / m) + (a1 - v1) / m * ((a1 - v1) / m)
      + (a2 - v2) / m * ((a2 - v2) / m) = 1" .
  show ?thesis
    unfolding v a calc_angle_exact.simps Let_def m_def[symmetric] key
    using m0 by (simp add: MIN_macro_def MAX_macro_def)
qed

section \<open>The scenario on the z axis, evaluated\<close>

lemma calc_angle_exact_z_axis:
  "calc_angle_exact (0, 0, a) (0, 0, b) (0, 0, c) =
     (if b = a \<or> c = a then NaN
      else if 0 < (b - a) * (c - a) then Deg 0
      else Deg (pi * 180 / 3.141592653589793))"
proof (cases "b = a \<or> c = a")
  case True
  then show ?thesis
    by (auto simp: calc_angle_exact.simps Let_def)
next
  case False
  then have ne: "b - a \<noteq> 0" "c - a \<noteq> 0"
    by simp_all
  have "(b - a) * (c - a) / (\<bar>b - a\<bar> * \<bar>c - a\<bar>) = sgn ((b - a) * (c - a))"
    by (simp add: real_sgn_eq abs_mult)
  with ne have dot:
    "(b - a) * (c - a) / (\<bar>b - a\<bar> * \<bar>c - a\<bar>) = (if 0 < (b - a) * (c - a) then 1 else - 1)"
    by (simp add: sgn_if)
  from False ne show ?thesis
    by (simp add: calc_angle_exact.simps Let_def dot MIN_macro_def MAX_macro_def)
qed


lemma polar_stof:
  "stof_int ''0'' = Some 0" "stof_int ''1'' = Some 1" "stof_int ''2'' = Some 2"
  "stof_int ''3'' = Some 3" "stof_int ''-1'' = Some (- 1)" "stof_int ''-2'' = Some (- 2)"
  by (simp_all add: stof_int_def isdigit_def)

lemma polar_stoi:
  "stoi_std ''1'' = Some 1" "stoi_std ''2'' = Some 2" "stoi_std ''3'' = Some 3"
  by (simp_all add: stoi_std_def isdigit_def isspace_def)

lemma const_upd: "(\<lambda>_. c)(x := c) = (\<lambda>_. c)"
  by (rule ext) simp




section \<open>The engine computes the greedy plan\<close>




section \<open>Sorting\<close>










section \<open>The visibility builder\<close>

lemma interferer_violation_list_ex:
  "interferer_violation calc_angle user_pos sat_pos is =
     list_ex (\<lambda>I. angle_lt (calc_angle user_pos I sat_pos) NON_STARLINK_INTERFERENCE_MAX) is"
  by (induction "is") auto

lemma angle_le_gt: "a \<noteq> NaN \<Longrightarrow> \<not> angle_le a b \<longleftrightarrow> angle_gt a b"
  by (cases a) auto

text \<open>The test of lines 222-243, as the source makes it.\<close>

lemma vis_sat_loop_set:
  "vis_sat_loop calc_angle scenario sbl user_i i = Inr sats \<Longrightarrow>
   (s \<in> set sats \<longleftrightarrow>
      (\<exists>k. i + k * 4 < length sbl \<and> sat_id (sbl ! (i + k * 4)) = s
         \<and> \<not> angle_le (calc_angle (scenario USER_KEY ! nat user_i) ORIGIN
                           (scenario SATS_KEY ! nat s)) (180 - MAX_USER_VISIBLE_ANGLE)
         \<and> \<not> interferer_violation calc_angle (scenario USER_KEY ! nat user_i)
                 (scenario SATS_KEY ! nat s) (scenario INTERFERER_KEY)))
   \<and> (\<forall>k. i + k * 4 < length sbl \<longrightarrow>
           0 \<le> sat_id (sbl ! (i + k * 4))
           \<and> nat (sat_id (sbl ! (i + k * 4))) < length (scenario SATS_KEY))"
proof (induction calc_angle scenario sbl user_i i arbitrary: sats rule: vis_sat_loop.induct)
  case (1 calc_angle scenario sbl user_i i)
  let ?U = "scenario USER_KEY ! nat user_i"
  let ?pass = "\<lambda>s. \<not> angle_le (calc_angle ?U ORIGIN (scenario SATS_KEY ! nat s))
                       (180 - MAX_USER_VISIBLE_ANGLE)
      \<and> \<not> interferer_violation calc_angle ?U (scenario SATS_KEY ! nat s) (scenario INTERFERER_KEY)"
  let ?P = "\<lambda>i sats. (s \<in> set sats \<longleftrightarrow>
      (\<exists>k. i + k * 4 < length sbl \<and> sat_id (sbl ! (i + k * 4)) = s \<and> ?pass s))
    \<and> (\<forall>k. i + k * 4 < length sbl \<longrightarrow>
           0 \<le> sat_id (sbl ! (i + k * 4))
           \<and> nat (sat_id (sbl ! (i + k * 4))) < length (scenario SATS_KEY))"
  show "?P i sats"
  proof (cases "i < length sbl")
    case False
    with "1.prems" have "sats = []"
      by (simp add: vis_sat_loop.simps)
    with False show ?thesis
      by simp
  next
    case True
    let ?e = "sbl ! i"
    from True "1.prems" obtain sat_pos user_pos where
      sp: "vec_at (scenario SATS_KEY) (sat_id ?e) = Inr sat_pos" and
      up: "vec_at (scenario USER_KEY) user_i = Inr user_pos"
      by (subst (asm) vis_sat_loop.simps) (auto simp: Let_def split: sum.splits)
    then have sp_eq: "sat_pos = scenario SATS_KEY ! nat (sat_id ?e)" "0 \<le> sat_id ?e"
      "nat (sat_id ?e) < length (scenario SATS_KEY)" and up_eq: "user_pos = ?U"
      by (auto simp: vec_at_Inr)
    obtain rest where
      rest: "vis_sat_loop calc_angle scenario sbl user_i (i + COLORS_PER_SATELLITE) = Inr rest"
      and sats: "sats = (if ?pass (sat_id ?e) then sat_id ?e # rest else rest)"
      using True "1.prems" sp up
      by (subst (asm) vis_sat_loop.simps)
        (auto simp: Let_def sp_eq up_eq split: sum.splits if_splits)
    have ih: "?P (i + 4) rest"
    proof (cases "angle_le (calc_angle user_pos ORIGIN sat_pos) (180 - MAX_USER_VISIBLE_ANGLE)")
      case a: True
      from "1.IH"(1)[OF True refl refl sp up a rest]
      show ?thesis
        by (simp add: COLORS_PER_SATELLITE_def)
    next
      case a: False
      show ?thesis
      proof (cases "interferer_violation calc_angle user_pos sat_pos (scenario INTERFERER_KEY)")
        case b: True
        from "1.IH"(2)[OF True refl refl sp up a b rest]
        show ?thesis
          by (simp add: COLORS_PER_SATELLITE_def)
      next
        case b: False
        from "1.IH"(3)[OF True refl refl sp up a b rest]
        show ?thesis
          by (simp add: COLORS_PER_SATELLITE_def)
      qed
    qed
    have split_k: "(\<exists>k. i + k * 4 < length sbl \<and> Q (i + k * 4)) \<longleftrightarrow>
        Q i \<or> (\<exists>k. i + 4 + k * 4 < length sbl \<and> Q (i + 4 + k * 4))" for Q
    proof
      assume "\<exists>k. i + k * 4 < length sbl \<and> Q (i + k * 4)"
      then obtain k where k: "i + k * 4 < length sbl" "Q (i + k * 4)"
        by blast
      show "Q i \<or> (\<exists>k. i + 4 + k * 4 < length sbl \<and> Q (i + 4 + k * 4))"
      proof (cases k)
        case 0
        with k show ?thesis by simp
      next
        case (Suc k')
        with k have "i + 4 + k' * 4 < length sbl \<and> Q (i + 4 + k' * 4)"
          by (simp add: add.assoc)
        then show ?thesis by blast
      qed
    next
      assume "Q i \<or> (\<exists>k. i + 4 + k * 4 < length sbl \<and> Q (i + 4 + k * 4))"
      then show "\<exists>k. i + k * 4 < length sbl \<and> Q (i + k * 4)"
      proof
        assume "Q i"
        with True have "i + 0 * 4 < length sbl \<and> Q (i + 0 * 4)"
          by simp
        then show ?thesis by blast
      next
        assume "\<exists>k. i + 4 + k * 4 < length sbl \<and> Q (i + 4 + k * 4)"
        then obtain k where "i + 4 + k * 4 < length sbl" "Q (i + 4 + k * 4)"
          by blast
        then have "i + Suc k * 4 < length sbl \<and> Q (i + Suc k * 4)"
          by (simp add: add.assoc)
        then show ?thesis by blast
      qed
    qed
    have all_k: "(\<forall>k. i + k * 4 < length sbl \<longrightarrow> Q (i + k * 4)) \<longleftrightarrow>
        Q i \<and> (\<forall>k. i + 4 + k * 4 < length sbl \<longrightarrow> Q (i + 4 + k * 4))" for Q
      using split_k[of "\<lambda>j. \<not> Q j"] by blast
    from ih sats sp_eq show ?thesis
      unfolding split_k[of "\<lambda>j. sat_id (sbl ! j) = s \<and> ?pass s"]
        all_k[of "\<lambda>j. 0 \<le> sat_id (sbl ! j) \<and> nat (sat_id (sbl ! j)) < length (scenario SATS_KEY)"]
      by auto
  qed
qed


lemma vis_user_loop_result:
  "vis_user_loop calc_angle scenario sbl us = Inr vis \<Longrightarrow>
   length vis = length us
   \<and> (\<forall>j < length us. user_id (vis ! j) = int (us ! j)
          \<and> vis_sat_loop calc_angle scenario sbl (int (us ! j)) 0 = Inr (visible_sats (vis ! j)))"
proof (induction us arbitrary: vis)
  case Nil
  then show ?case by simp
next
  case (Cons u us)
  from Cons.prems obtain sats entries where
    sats: "vis_sat_loop calc_angle scenario sbl (int u) 0 = Inr sats" and
    rest: "vis_user_loop calc_angle scenario sbl us = Inr entries" and
    vis: "vis = \<lparr>user_id = int u, visible_sats = sats\<rparr> # entries"
    by (auto split: sum.splits)
  from Cons.IH[OF rest] sats show ?case
    by (auto simp: vis nth_Cons split: nat.splits)
qed

lemma jammed_vis:
  "generate_user_vis_list calc_angle_exact jammed_scenario jammed_sat_beam_list
     = Inr [\<lparr>user_id = 0, visible_sats = [0]\<rparr>, \<lparr>user_id = 1, visible_sats = []\<rparr>]"
  using pi_ge_three
  by (simp add: generate_user_vis_list_def jammed_scenario_def jammed_sat_beam_list_def
      vis_sat_loop.simps vec_at_def calc_angle_exact_z_axis ORIGIN_def
      USER_KEY_def SATS_KEY_def INTERFERER_KEY_def COLORS_PER_SATELLITE_def
      MAX_USER_VISIBLE_ANGLE_def NON_STARLINK_INTERFERENCE_MAX_def upt_rec)

lemma jammed_defined:
  "\<forall>U \<in> set (jammed_scenario USER_KEY). \<forall>S \<in> set (jammed_scenario SATS_KEY).
     calc_angle_exact U ORIGIN S \<noteq> NaN"
  by (simp add: jammed_scenario_def calc_angle_exact_NaN_iff ORIGIN_def
      USER_KEY_def SATS_KEY_def INTERFERER_KEY_def)

section \<open>Files that are not read to the end\<close>

lemma parse_lines_append:
  "parse_lines stof stoi (pre @ rest) st =
     (case parse_lines stof stoi pre st of
        Parsed st' \<Rightarrow> parse_lines stof stoi rest st'
      | CouldntRead l \<Rightarrow> CouldntRead l
      | Crashed e \<Rightarrow> Crashed e)"
  by (induction pre arbitrary: st) (auto split: parsed.splits)

lemma parse_line_malformed:
  "malformed line_buff \<Longrightarrow> parse_line stof stoi line_buff st = CouldntRead line_buff"
  by (simp add: malformed_def parse_line_short)

lemma parse_lines_malformed_not_Parsed:
  "\<exists>l \<in> set lines. malformed l \<Longrightarrow> parse_lines stof stoi lines st \<noteq> Parsed st'"
proof (induction lines arbitrary: st)
  case Nil
  then show ?case by simp
next
  case (Cons l ls)
  show ?case
  proof (cases "malformed l")
    case True
    then show ?thesis
      by (simp add: parse_line_malformed)
  next
    case False
    with Cons.prems have "\<exists>l \<in> set ls. malformed l"
      by simp
    from Cons.IH[OF this] show ?thesis
      by (simp split: parsed.splits)
  qed
qed

lemma solve_not_Parsed:
  assumes "\<And>st. parse_lines stof stoi lines initial_state \<noteq> Parsed st"
  shows "Assigned a \<notin> set (fst (solve stof stoi calc_angle std_sort filename (Some lines)))"
proof (cases "parse_lines stof stoi lines initial_state")
  case (Parsed st)
  with assms show ?thesis
    by blast
qed (simp_all add: solve_def)

lemma example_malformed: "malformed ''user 4 1 2''"
  by (simp add: malformed_def skipped_def split.simps)

section \<open>Lines that end the run\<close>

lemma parse_line_RoleAssertion:
  assumes "parse_line stof stoi line_buff st = Crashed RoleAssertion"
  shows "\<not> skipped line_buff \<and> length (split line_buff CHR '' '') = 5 \<and> \<not> known_role line_buff"
proof (cases "skipped line_buff")
  case True
  with assms show ?thesis
    by (simp add: parse_line_skipped)
next
  case False
  show ?thesis
  proof (cases "length (split line_buff CHR '' '') = 5")
    case short: False
    with False assms show ?thesis
      by (simp add: parse_line_short)
  next
    case True
    obtain scenario sbl h where st: "st = (scenario, sbl, h)"
      by (cases st)
    from assms[unfolded st parse_line_five[OF False refl True]] False True show ?thesis
      by (auto simp: known_role_def split: option.splits if_splits)
  qed
qed

lemma parse_lines_RoleAssertion:
  "parse_lines stof stoi lines st = Crashed RoleAssertion \<Longrightarrow>
   \<exists>l \<in> set lines. \<not> skipped l \<and> length (split l CHR '' '') = 5 \<and> \<not> known_role l"
proof (induction lines arbitrary: st)
  case Nil
  then show ?case by simp
next
  case (Cons l ls)
  show ?case
  proof (cases "parse_line stof stoi l st")
    case (Parsed st')
    with Cons.prems have "parse_lines stof stoi ls st' = Crashed RoleAssertion"
      by simp
    from Cons.IH[OF this] show ?thesis
      by auto
  next
    case (CouldntRead x)
    with Cons.prems show ?thesis by simp
  next
    case (Crashed e)
    with Cons.prems have "parse_line stof stoi l st = Crashed RoleAssertion"
      by simp
    from parse_line_RoleAssertion[OF this] show ?thesis
      by simp
  qed
qed

lemma moon_line:
  "\<not> skipped ''moon 1 0 0 9''"
  "split ''moon 1 0 0 9'' CHR '' '' = [''moon'', ''1'', ''0'', ''0'', ''9'']"
  "\<not> known_role ''moon 1 0 0 9''"
  "stof_int ''9'' = Some 9"
  by (simp_all add: skipped_def split.simps known_role_def USER_KEY_def SATS_KEY_def
      INTERFERER_KEY_def stof_int_def isdigit_def)

lemma north_line:
  "\<not> skipped ''user 4 0 north 1''"
  "split ''user 4 0 north 1'' CHR '' '' = [''user'', ''4'', ''0'', ''north'', ''1'']"
  "stof_int ''north'' = None"
  by (simp_all add: skipped_def split.simps stof_int_def isdigit_def)

section \<open>A file with satellite lines out of order\<close>

lemma swapped_split:
  "split ''sat 2 0 0 2'' CHR '' '' = [''sat'', ''2'', ''0'', ''0'', ''2'']"
  "split ''sat 1 0 0 3'' CHR '' '' = [''sat'', ''1'', ''0'', ''0'', ''3'']"
  "split ''user 1 0 0 1'' CHR '' '' = [''user'', ''1'', ''0'', ''0'', ''1'']"
  by (simp_all add: split.simps)

lemma swapped_parse:
  "parse_lines stof_int stoi_std swapped_lines initial_state
     = Parsed ((\<lambda>_. [])(SATS_KEY := [(0, 0, 2), (0, 0, 3)], USER_KEY := [(0, 0, 1)]),
         [\<lparr>sat_id = 1, color = CHR ''A'', beam_list = 0, total_sat_beam_count = 0\<rparr>,
          \<lparr>sat_id = 1, color = CHR ''B'', beam_list = 1, total_sat_beam_count = 0\<rparr>,
          \<lparr>sat_id = 1, color = CHR ''C'', beam_list = 2, total_sat_beam_count = 0\<rparr>,
          \<lparr>sat_id = 1, color = CHR ''D'', beam_list = 3, total_sat_beam_count = 0\<rparr>,
          \<lparr>sat_id = 0, color = CHR ''A'', beam_list = 4, total_sat_beam_count = 1\<rparr>,
          \<lparr>sat_id = 0, color = CHR ''B'', beam_list = 5, total_sat_beam_count = 1\<rparr>,
          \<lparr>sat_id = 0, color = CHR ''C'', beam_list = 6, total_sat_beam_count = 1\<rparr>,
          \<lparr>sat_id = 0, color = CHR ''D'', beam_list = 7, total_sat_beam_count = 1\<rparr>],
         \<lparr>vectors = (\<lambda>_. []), ints = (\<lambda>_. 0), next_vector = 8, next_int = 2\<rparr>)"
  by (simp add: swapped_lines_def initial_state_def empty_heap_def skipped_def
      parse_line_five[OF _ swapped_split(1)] parse_line_five[OF _ swapped_split(2)]
      parse_line_five[OF _ swapped_split(3)]
      polar_stof polar_stoi USER_KEY_def SATS_KEY_def INTERFERER_KEY_def COLOR_IDS_def const_upd)

section \<open>Files with satellite lines in order\<close>

lemma vec_at_in_range: "0 \<le> i \<Longrightarrow> nat i < length v \<Longrightarrow> vec_at v i = Inr (v ! nat i)"
  by (auto simp: vec_at_def)

lemma vis_sat_loop_total:
  assumes "\<forall>j < length sbl. 0 \<le> sat_id (sbl ! j) \<and> nat (sat_id (sbl ! j)) < length (scenario SATS_KEY)"
    and "0 \<le> user_i" and "nat user_i < length (scenario USER_KEY)"
  shows "\<exists>sats. vis_sat_loop calc_angle scenario sbl user_i i = Inr sats"
  using assms
proof (induction calc_angle scenario sbl user_i i rule: vis_sat_loop.induct)
  case (1 calc_angle scenario sbl user_i i)
  show ?case
  proof (cases "i < length sbl")
    case False
    then show ?thesis
      by (simp add: vis_sat_loop.simps)
  next
    case True
    let ?e = "sbl ! i"
    from True "1.prems"(1) have sp: "vec_at (scenario SATS_KEY) (sat_id ?e)
        = Inr (scenario SATS_KEY ! nat (sat_id ?e))"
      by (intro vec_at_in_range) simp_all
    from "1.prems"(2,3) have up: "vec_at (scenario USER_KEY) user_i
        = Inr (scenario USER_KEY ! nat user_i)"
      by (rule vec_at_in_range)
    let ?sp = "scenario SATS_KEY ! nat (sat_id ?e)" and ?up = "scenario USER_KEY ! nat user_i"
    show ?thesis
    proof (cases "angle_le (calc_angle ?up ORIGIN ?sp) (180 - MAX_USER_VISIBLE_ANGLE)")
      case a: True
      from "1.IH"(1)[OF True refl refl sp up a "1.prems"] True sp up a show ?thesis
        by (subst vis_sat_loop.simps) (simp add: Let_def)
    next
      case a: False
      show ?thesis
      proof (cases "interferer_violation calc_angle ?up ?sp (scenario INTERFERER_KEY)")
        case b: True
        from "1.IH"(2)[OF True refl refl sp up a b "1.prems"] True sp up a b show ?thesis
          by (subst vis_sat_loop.simps) (simp add: Let_def)
      next
        case b: False
        from "1.IH"(3)[OF True refl refl sp up a b "1.prems"] True sp up a b show ?thesis
          by (subst vis_sat_loop.simps) (auto simp: Let_def)
      qed
    qed
  qed
qed

lemma vis_user_loop_total:
  assumes "\<forall>j < length sbl. 0 \<le> sat_id (sbl ! j) \<and> nat (sat_id (sbl ! j)) < length (scenario SATS_KEY)"
    and "\<forall>u \<in> set us. u < length (scenario USER_KEY)"
  shows "\<exists>vis. vis_user_loop calc_angle scenario sbl us = Inr vis"
  using assms(2)
proof (induction us)
  case Nil
  then show ?case by simp
next
  case (Cons u us)
  then obtain vis where "vis_user_loop calc_angle scenario sbl us = Inr vis"
    by auto
  moreover from Cons.prems obtain sats where
    "vis_sat_loop calc_angle scenario sbl (int u) 0 = Inr sats"
    using vis_sat_loop_total[where sbl = sbl and scenario = scenario and user_i = "int u"
        and calc_angle = calc_angle and i = 0, OF assms(1)] by auto
  ultimately show ?case
    by simp
qed

lemma color_loop_total:
  assumes "0 \<le> sat_i"
    and "\<forall>c < length COLOR_IDS. nat sat_i * 4 + c < length sbl
           \<and> sat_id (sbl ! (nat sat_i * 4 + c)) = sat_i"
  shows "\<exists>r. color_loop calc_angle sbl sat_i user_i sat_pos user_pos c h = Inr r"
  using assms
proof (induction calc_angle sbl sat_i user_i sat_pos user_pos c h rule: color_loop.induct)
  case (1 calc_angle sbl sat_i user_i sat_pos user_pos c h)
  show ?case
  proof (cases "c < length COLOR_IDS")
    case False
    then show ?thesis
      by (simp add: color_loop.simps)
  next
    case True
    let ?e = "sbl ! (nat sat_i * 4 + c)"
    from True "1.prems"(2) have rng: "nat sat_i * 4 + c < length sbl" and sid: "sat_id ?e = sat_i"
      by simp_all
    have idx: "nat (sat_i * int COLORS_PER_SATELLITE + int c) = nat sat_i * 4 + c"
      using "1.prems"(1) by (rule slot_index)
    from "1.prems"(1) have "0 \<le> sat_i * int COLORS_PER_SATELLITE + int c"
      by simp
    with rng have e: "vec_at sbl (sat_i * int COLORS_PER_SATELLITE + int c) = Inr ?e"
      using vec_at_in_range[of "sat_i * int COLORS_PER_SATELLITE + int c" sbl]
      by (simp add: idx)
    show ?thesis
    proof (cases "self_interference calc_angle sat_pos user_pos (vectors h (beam_list ?e))")
      case si: True
      from "1.IH"[OF True e _ si "1.prems"] sid True e si show ?thesis
        by (subst color_loop.simps) simp
    next
      case si: False
      with sid True e show ?thesis
        by (subst color_loop.simps) (simp add: Let_def)
    qed
  qed
qed

text \<open>An entry of the visibility list that the engine can process without leaving its vectors.\<close>

lemma sat_loop_total:
  assumes "\<forall>sat_i \<in> set sats. 0 \<le> sat_i \<and> nat sat_i < length (scenario SATS_KEY)
      \<and> (\<forall>c < length COLOR_IDS. nat sat_i * 4 + c < length sbl
            \<and> sat_id (sbl ! (nat sat_i * 4 + c)) = sat_i)"
    and "0 \<le> user_i" and "nat user_i < length (scenario USER_KEY)"
  shows "\<exists>r. sat_loop calc_angle scenario sbl user_i sats h = Inr r"
  using assms(1)
proof (induction sats arbitrary: h)
  case Nil
  then show ?case by simp
next
  case (Cons sat_i rest)
  then have s: "0 \<le> sat_i" "nat sat_i < length (scenario SATS_KEY)"
    and cs: "\<forall>c < length COLOR_IDS. nat sat_i * 4 + c < length sbl
            \<and> sat_id (sbl ! (nat sat_i * 4 + c)) = sat_i"
    by simp_all
  from cs[rule_format, of 0] have "nat sat_i * 4 < length sbl"
    by (simp add: length_COLOR_IDS)
  moreover from s(1) have "nat (sat_i * int COLORS_PER_SATELLITE) = nat sat_i * 4"
    using slot_index[of sat_i 0] by simp
  moreover from s(1) have "0 \<le> sat_i * int COLORS_PER_SATELLITE"
    by simp
  ultimately have be: "vec_at sbl (sat_i * int COLORS_PER_SATELLITE) = Inr (sbl ! (nat sat_i * 4))"
    using vec_at_in_range[of "sat_i * int COLORS_PER_SATELLITE" sbl] by simp
  from s have sp: "vec_at (scenario SATS_KEY) sat_i = Inr (scenario SATS_KEY ! nat sat_i)"
    by (intro vec_at_in_range)
  from assms(2,3) have up: "vec_at (scenario USER_KEY) user_i = Inr (scenario USER_KEY ! nat user_i)"
    by (rule vec_at_in_range)
  from Cons have ih: "\<exists>r. sat_loop calc_angle scenario sbl user_i rest h' = Inr r" for h'
    by simp
  obtain h1 out where cl: "color_loop calc_angle sbl sat_i user_i (scenario SATS_KEY ! nat sat_i)
      (scenario USER_KEY ! nat user_i) 0 h = Inr (h1, out)"
    using color_loop_total[OF s(1) cs] by (metis surj_pair)
  from ih[of h] ih[of h1] be sp up cl show ?case
    by (cases out) auto
qed

lemma assign_total:
  assumes "\<forall>u \<in> set us. 0 \<le> user_id u \<and> nat (user_id u) < length (scenario USER_KEY)
      \<and> (\<forall>sat_i \<in> set (visible_sats u). 0 \<le> sat_i \<and> nat sat_i < length (scenario SATS_KEY)
            \<and> (\<forall>c < length COLOR_IDS. nat sat_i * 4 + c < length sbl
                  \<and> sat_id (sbl ! (nat sat_i * 4 + c)) = sat_i))"
  shows "\<exists>h' outs. assign_beams_and_print calc_angle scenario us sbl h = (h', outs, None)"
  using assms
proof (induction us arbitrary: h)
  case Nil
  then show ?case by simp
next
  case (Cons u us)
  from Cons.prems obtain h1 out where
    "sat_loop calc_angle scenario sbl (user_id u) (visible_sats u) h = Inr (h1, out)"
    using sat_loop_total[of "visible_sats u" scenario sbl "user_id u" calc_angle h]
    by (metis list.set_intros(1) surj_pair)
  moreover from Cons obtain h2 outs where
    "assign_beams_and_print calc_angle scenario us sbl h1 = (h2, outs, None)"
    by (metis list.set_intros(2))
  ultimately show ?case
    by simp
qed


text \<open>
  A file that is read to the end and whose satellite lines are in the order of their
  identifiers is planned without an abort: no vector is read out of range and no
  assertion fails.
\<close>

lemma solve_returns_for_ordered_ids:
  assumes srt: "\<forall>xs. mset (std_sort sortUsersByPotentialCoverage xs) = mset xs"
    and parse: "parse_lines stof stoi lines initial_state = Parsed (scenario, sbl, h0)"
    and ord: "ids_in_order sbl"
  shows "\<exists>outs. solve stof stoi calc_angle std_sort filename (Some lines)
      = (map Assigned outs, Returned)"
proof -
  note inv = parsed_invariant[OF parse]
  from inv have len: "length sbl = 4 * length (scenario SATS_KEY)"
    by (simp add: parse_invariant_def COLORS_PER_SATELLITE_def)
  from ord have id: "sat_id (sbl ! j) = int (j div 4)" if "j < length sbl" for j
    using that by (simp add: ids_in_order_def list_all_iff COLORS_PER_SATELLITE_def)
  have rng: "\<forall>j < length sbl. 0 \<le> sat_id (sbl ! j)
      \<and> nat (sat_id (sbl ! j)) < length (scenario SATS_KEY)"
  proof (intro allI impI)
    fix j assume j: "j < length sbl"
    with len have "j div 4 < length (scenario SATS_KEY)"
      by simp
    with j show "0 \<le> sat_id (sbl ! j) \<and> nat (sat_id (sbl ! j)) < length (scenario SATS_KEY)"
      by (simp add: id)
  qed
  obtain vis where vis: "vis_user_loop calc_angle scenario sbl [0 ..< length (scenario USER_KEY)]
      = Inr vis"
    using vis_user_loop_total[where sbl = sbl and scenario = scenario
        and us = "[0 ..< length (scenario USER_KEY)]" and calc_angle = calc_angle, OF rng]
    by auto
  note r = vis_user_loop_result[OF vis]
  have ok: "0 \<le> user_id u \<and> nat (user_id u) < length (scenario USER_KEY)
      \<and> (\<forall>sat_i \<in> set (visible_sats u). 0 \<le> sat_i \<and> nat sat_i < length (scenario SATS_KEY)
            \<and> (\<forall>c < length COLOR_IDS. nat sat_i * 4 + c < length sbl
                  \<and> sat_id (sbl ! (nat sat_i * 4 + c)) = sat_i))"
    if "u \<in> set vis" for u
  proof -
    from that obtain j where j: "j < length vis" "u = vis ! j"
      by (auto simp: in_set_conv_nth)
    with r have uid: "user_id u = int j" "j < length (scenario USER_KEY)"
      and loop: "vis_sat_loop calc_angle scenario sbl (int j) 0 = Inr (visible_sats u)"
      by simp_all
    have "0 \<le> sat_i \<and> nat sat_i < length (scenario SATS_KEY)
        \<and> (\<forall>c < length COLOR_IDS. nat sat_i * 4 + c < length sbl
              \<and> sat_id (sbl ! (nat sat_i * 4 + c)) = sat_i)"
      if "sat_i \<in> set (visible_sats u)" for sat_i
    proof -
      from vis_sat_loop_set[OF loop, of sat_i] that obtain k where
        k: "k * 4 < length sbl" "sat_id (sbl ! (k * 4)) = sat_i"
        by auto
      with id[of "k * 4"] have s: "sat_i = int k"
        by simp
      from k(1) len have "k < length (scenario SATS_KEY)"
        by simp
      moreover from this len have "k * 4 + c < length sbl" if "c < 4" for c
        using that by simp
      moreover from this have "sat_id (sbl ! (k * 4 + c)) = int k" if "c < 4" for c
        using that by (simp add: id)
      ultimately show ?thesis
        by (simp add: s length_COLOR_IDS)
    qed
    with uid show ?thesis
      by simp
  qed
  from srt have "set (std_sort sortUsersByPotentialCoverage vis) = set vis"
    by (metis set_mset_mset)
  with ok obtain h' outs where
    "assign_beams_and_print calc_angle scenario (std_sort sortUsersByPotentialCoverage vis) sbl h0 = (h', outs, None)"
    using assign_total[where us = "std_sort sortUsersByPotentialCoverage vis" and scenario = scenario and sbl = sbl
        and calc_angle = calc_angle and h = h0]
    by blast
  with parse vis have "solve stof stoi calc_angle std_sort filename (Some lines)
      = (map Assigned outs, Returned)"
    by (simp add: solve_def generate_user_vis_list_def)
  then show ?thesis ..
qed

lemma ids_in_order_append_group:
  assumes "ids_in_order sbl" and "length sbl = 4 * n" and "length es = 4"
    and "\<forall>i < 4. sat_id (es ! i) = int n"
  shows "ids_in_order (sbl @ es)"
proof -
  have "sat_id ((sbl @ es) ! i) = int (i div 4)" if "i < length sbl + 4" for i
  proof (cases "i < length sbl")
    case True
    with assms(1) show ?thesis
      by (simp add: ids_in_order_def list_all_iff nth_append COLORS_PER_SATELLITE_def)
  next
    case False
    with that have "i - length sbl < 4" "i = 4 * n + (i - length sbl)"
      by (simp_all add: assms(2))
    moreover from this have "i div 4 = n"
      by simp
    ultimately show ?thesis
      using assms(4) False by (simp add: nth_append)
  qed
  with assms(3) show ?thesis
    by (simp add: ids_in_order_def list_all_iff COLORS_PER_SATELLITE_def)
qed

lemma parse_line_ids_in_order:
  assumes "parse_line stof stoi line_buff (scenario, sbl, h) = Parsed (scenario', sbl', h')"
    and "parse_invariant (scenario, sbl, h)" and "ids_in_order sbl"
    and "sat_lines_ordered stoi (line_buff # rest) (next_int h)"
  shows "ids_in_order sbl' \<and> sat_lines_ordered stoi rest (next_int h')"
  using assms(1)
proof (cases rule: parse_line_Parsed_cases)
  case skip
  with assms(3,4) show ?thesis
    by simp
next
  case (other parts x y z)
  with assms(3,4) show ?thesis
    by simp
next
  case (sat parts x y z n)
  from assms(2) have len: "length sbl = 4 * next_int h"
    by (simp add: parse_invariant_def COLORS_PER_SATELLITE_def)
  from sat(1,2,3,4,6) assms(4) have n: "n = int (next_int h) + 1"
    and rest: "sat_lines_ordered stoi rest (Suc (next_int h))"
    by simp_all
  let ?es = "map (\<lambda>i. \<lparr>sat_id = n - 1, color = COLOR_IDS ! i, beam_list = next_vector h + i,
                      total_sat_beam_count = next_int h\<rparr>) [0, 1, 2, 3 :: nat]"
  have "\<forall>i < 4. sat_id (?es ! i) = int (next_int h)"
  proof (intro allI impI)
    fix i :: nat
    assume "i < 4"
    then consider "i = 0" | "i = 1" | "i = 2" | "i = 3"
      by arith
    then show "sat_id (?es ! i) = int (next_int h)"
      by cases (simp_all add: n)
  qed
  then have "ids_in_order (sbl @ ?es)"
    by (rule ids_in_order_append_group[where n = "next_int h", OF assms(3) len, rotated]) simp
  with sat(5) rest show ?thesis
    by simp
qed

text \<open>
  When the satellite lines of a file are in the order of their identifiers 1, 2, ..., the
  index of a satellite in the scenario is its identifier.
\<close>

lemma parse_lines_ids_in_order:
  assumes "parse_lines stof stoi lines st = Parsed st'"
    and "parse_invariant st" and "ids_in_order (fst (snd st))"
    and "sat_lines_ordered stoi lines (next_int (snd (snd st)))"
  shows "ids_in_order (fst (snd st'))"
  using assms
proof (induction lines arbitrary: st)
  case Nil
  then show ?case by simp
next
  case (Cons l ls)
  from Cons.prems(1) obtain st1 where
    l: "parse_line stof stoi l st = Parsed st1" and
    ls: "parse_lines stof stoi ls st1 = Parsed st'"
    by (auto split: parsed.splits)
  obtain scenario sbl h where st: "st = (scenario, sbl, h)"
    by (cases st)
  obtain scenario1 sbl1 h1 where st1: "st1 = (scenario1, sbl1, h1)"
    by (cases st1)
  from parse_line_ids_in_order[OF l[unfolded st st1] Cons.prems(2)[unfolded st], of ls]
    Cons.prems(3,4)
  have "ids_in_order sbl1" "sat_lines_ordered stoi ls (next_int h1)"
    by (simp_all add: st)
  with Cons.IH[OF ls parse_line_invariant[OF l Cons.prems(2)]] show ?case
    by (simp add: st1)
qed

lemma ordered_file_ids_in_order:
  assumes "parse_lines stof stoi lines initial_state = Parsed (scenario, sbl, h)"
    and "sat_lines_ordered stoi lines 0"
  shows "ids_in_order sbl"
  using parse_lines_ids_in_order[OF assms(1) parse_invariant_initial] assms(2)
  by (simp add: initial_state_def empty_heap_def ids_in_order_def)

text \<open>
  The count printed with an assignment is at most \<open>BEAMS_PER_SATELLITE\<close>: the assertion that
  \<open>greedy_solver\<close> makes after the increment does not fail.
\<close>

lemma reported_count_at_most_capacity:
  assumes "sat_loop calc_angle scenario sbl user_i sats h = Inr (h', Some a)"
    and "wf_sat_beam_list sbl"
  shows "out_beam a \<le> BEAMS_PER_SATELLITE"
  using assms(1)
proof (cases rule: sat_loop_cases)
  case unserved
  then show ?thesis by simp
next
  case (served sat c)
  have s: "sat \<in> set (sat_ids sbl)"
    by (rule served_sat_ids[OF assms(2) served(8,9)])
  from served(3) have "counter h sbl sat < BEAMS_PER_SATELLITE"
    by (simp add: capacity_remaining_def)
  moreover have "counter h' sbl sat = counter h sbl sat + 1"
    unfolding served(5) commit_counter[OF assms(2) served(8) served(2) served(9) s] by simp
  moreover have "out_beam a = counter h' sbl sat"
    using served(6) wf_slot(2)[OF assms(2) served(8) served(2) served(9)]
      wf_counter[OF assms(2) s, of h']
    by (simp add: event_def)
  ultimately show ?thesis
    by simp
qed


text \<open>
  So a file that is read to the end and whose satellite lines are in order is planned
  without an abort.
\<close>

lemma solve_returns_for_ordered_file:
  assumes "\<forall>xs. mset (std_sort sortUsersByPotentialCoverage xs) = mset xs"
    and "parse_lines stof stoi lines initial_state = Parsed (scenario, sbl, h0)"
    and "sat_lines_ordered stoi lines 0"
  shows "\<exists>outs. solve stof stoi calc_angle std_sort filename (Some lines)
      = (map Assigned outs, Returned)"
  using solve_returns_for_ordered_ids[where std_sort = std_sort, OF assms(1,2)
      ordered_file_ids_in_order[OF assms(2,3)]] .

section \<open>The angle under rounding\<close>
































































section \<open>The claims\<close>

text \<open>
  C1. When the visibility builder returns, it has one entry per user, in the order of the
  users, and a satellite id is in the list of a user if and only if the angle at the user
  between the ray to the origin and the ray to the satellite exceeds 135 degrees and no
  interferer is less than 20 degrees away from the satellite, seen from the user. The
  ids are those of the satellite entries of \<open>sat_beam_list\<close>, and the position of a
  satellite is looked up by its id. The angle of elevation is taken to have a value (not
  NaN) for the users and satellites of the scenario.
\<close>

theorem visibility_list_iff:
  assumes "generate_user_vis_list calc_angle scenario sat_beam_list = Inr user_vis_list"
    and "\<forall>U \<in> set (scenario USER_KEY). \<forall>S \<in> set (scenario SATS_KEY).
           calc_angle U ORIGIN S \<noteq> NaN"
  shows "length user_vis_list = length (scenario USER_KEY)
    \<and> (\<forall>u < length (scenario USER_KEY).
          user_id (user_vis_list ! u) = int u
          \<and> (\<forall>s. s \<in> set (visible_sats (user_vis_list ! u)) \<longleftrightarrow>
                (\<exists>k. k * 4 < length sat_beam_list \<and> sat_id (sat_beam_list ! (k * 4)) = s)
                \<and> visible calc_angle scenario (scenario USER_KEY ! u)
                     (scenario SATS_KEY ! nat s)))"
proof -
  note r = vis_user_loop_result[OF assms(1)[unfolded generate_user_vis_list_def]]
  show ?thesis
  proof (intro conjI allI impI)
    from r show "length user_vis_list = length (scenario USER_KEY)"
      by simp
  next
    fix u assume u: "u < length (scenario USER_KEY)"
    with r show "user_id (user_vis_list ! u) = int u"
      by simp
  next
    fix u s assume u: "u < length (scenario USER_KEY)"
    let ?U = "scenario USER_KEY ! u"
    from r u have loop: "vis_sat_loop calc_angle scenario sat_beam_list (int u) 0
        = Inr (visible_sats (user_vis_list ! u))"
      by simp
    note v = vis_sat_loop_set[OF loop, of s, simplified]
    have "\<not> angle_le (calc_angle ?U ORIGIN (scenario SATS_KEY ! nat s))
              (180 - MAX_USER_VISIBLE_ANGLE)
          \<and> \<not> interferer_violation calc_angle ?U (scenario SATS_KEY ! nat s)
                  (scenario INTERFERER_KEY)
        \<longleftrightarrow> visible calc_angle scenario ?U (scenario SATS_KEY ! nat s)"
      if k: "k * 4 < length sat_beam_list" "sat_id (sat_beam_list ! (k * 4)) = s" for k
    proof -
      from v k have "nat s < length (scenario SATS_KEY)"
        by blast
      with u assms(2) have "calc_angle ?U ORIGIN (scenario SATS_KEY ! nat s) \<noteq> NaN"
        by simp
      then show ?thesis
        by (simp add: visible_def angle_le_gt interferer_violation_list_ex)
    qed
    with v show "s \<in> set (visible_sats (user_vis_list ! u)) \<longleftrightarrow>
        (\<exists>k. k * 4 < length sat_beam_list \<and> sat_id (sat_beam_list ! (k * 4)) = s)
        \<and> visible calc_angle scenario ?U (scenario SATS_KEY ! nat s)"
      by blast
  qed
qed

theorem visibility_list_iff_witness:
  "generate_user_vis_list calc_angle_exact jammed_scenario jammed_sat_beam_list
     = Inr [\<lparr>user_id = 0, visible_sats = [0]\<rparr>, \<lparr>user_id = 1, visible_sats = []\<rparr>]
   \<and> visible calc_angle_exact jammed_scenario (0, 0, 1) (0, 0, 2)
   \<and> \<not> visible calc_angle_exact jammed_scenario (0, 0, 1) (0, 0, - 2)
   \<and> \<not> visible calc_angle_exact jammed_scenario (0, 0, - 1) (0, 0, 2)
   \<and> \<not> visible calc_angle_exact jammed_scenario (0, 0, - 1) (0, 0, - 2)"
proof -
  let ?vis = "[\<lparr>user_id = 0, visible_sats = [0]\<rparr>, \<lparr>user_id = 1, visible_sats = []\<rparr>]"
  have users: "jammed_scenario USER_KEY = [(0, 0, 1), (0, 0, - 1)]"
    and sats: "jammed_scenario SATS_KEY = [(0, 0, 2), (0, 0, - 2)]"
    by (simp_all add: jammed_scenario_def USER_KEY_def SATS_KEY_def INTERFERER_KEY_def)
  have k: "\<exists>k. k * 4 < length jammed_sat_beam_list \<and> sat_id (jammed_sat_beam_list ! (k * 4)) = 0"
    "\<exists>k. k * 4 < length jammed_sat_beam_list \<and> sat_id (jammed_sat_beam_list ! (k * 4)) = 1"
    by (rule exI[of _ 0], simp add: jammed_sat_beam_list_def,
        rule exI[of _ 1], simp add: jammed_sat_beam_list_def)
  from visibility_list_iff[OF jammed_vis jammed_defined] have
    iff: "s \<in> set (visible_sats (?vis ! u)) \<longleftrightarrow>
        (\<exists>k. k * 4 < length jammed_sat_beam_list \<and> sat_id (jammed_sat_beam_list ! (k * 4)) = s)
        \<and> visible calc_angle_exact jammed_scenario (jammed_scenario USER_KEY ! u)
             (jammed_scenario SATS_KEY ! nat s)"
    if "u < 2" for u s
    using that by (simp add: users)
  from iff[of 0 0] iff[of 0 1] iff[of 1 0] iff[of 1 1] k jammed_vis show ?thesis
    by (simp add: users sats)
qed



text \<open>
  C3, at a file the parser accepts whose satellite lines are not in the order of their
  identifiers: the satellite at index 0 of the satellite sequence has the identifier 1
  and the one at index 1 has the identifier 0, and the run ends in the assertion of line
  155, which compares the identifier of the entry found by index with the identifier
  looked for.
\<close>

theorem swapped_ids_abort:
  "(case parse_lines stof_int stoi_std swapped_lines initial_state of
      Parsed (scenario, sat_beam_list, h) \<Rightarrow>
        scenario SATS_KEY = [(0, 0, 2), (0, 0, 3)]
        \<and> map sat_id sat_beam_list = [1, 1, 1, 1, 0, 0, 0, 0]
    | CouldntRead l \<Rightarrow> False
    | Crashed e \<Rightarrow> False)
   \<and> solve stof_int stoi_std calc_angle_exact insertion_sort ''swapped.txt''
         (Some swapped_lines) = ([], Aborted SatIdAssertion)"
proof -
  let ?scn = "(\<lambda>_. [])(SATS_KEY := [(0, 0, 2), (0, 0, 3)], USER_KEY := [(0, 0, 1 :: real)])"
  let ?sbl = "[\<lparr>sat_id = 1, color = CHR ''A'', beam_list = 0, total_sat_beam_count = 0\<rparr>,
          \<lparr>sat_id = 1, color = CHR ''B'', beam_list = 1, total_sat_beam_count = 0\<rparr>,
          \<lparr>sat_id = 1, color = CHR ''C'', beam_list = 2, total_sat_beam_count = 0\<rparr>,
          \<lparr>sat_id = 1, color = CHR ''D'', beam_list = 3, total_sat_beam_count = 0\<rparr>,
          \<lparr>sat_id = 0, color = CHR ''A'', beam_list = 4, total_sat_beam_count = 1\<rparr>,
          \<lparr>sat_id = 0, color = CHR ''B'', beam_list = 5, total_sat_beam_count = 1\<rparr>,
          \<lparr>sat_id = 0, color = CHR ''C'', beam_list = 6, total_sat_beam_count = 1\<rparr>,
          \<lparr>sat_id = 0, color = CHR ''D'', beam_list = 7, total_sat_beam_count = 1\<rparr>]"
  let ?h = "\<lparr>vectors = (\<lambda>_. []), ints = (\<lambda>_. 0), next_vector = 8, next_int = 2\<rparr> :: real heap"
  let ?vis = "[\<lparr>user_id = 0, visible_sats = [1, 0]\<rparr>]"
  have vis: "generate_user_vis_list calc_angle_exact ?scn ?sbl = Inr ?vis"
    using pi_ge_three
    by (simp add: generate_user_vis_list_def vis_sat_loop.simps vec_at_def
        calc_angle_exact_z_axis ORIGIN_def USER_KEY_def SATS_KEY_def INTERFERER_KEY_def
        COLORS_PER_SATELLITE_def MAX_USER_VISIBLE_ANGLE_def upt_rec)
  have srt: "insertion_sort sortUsersByPotentialCoverage ?vis = ?vis"
    by (simp add: insertion_sort_def)
  have run: "assign_beams_and_print calc_angle_exact ?scn ?vis ?sbl ?h = (?h, [], Some SatIdAssertion)"
    by (simp add: vec_at_def color_loop.simps USER_KEY_def SATS_KEY_def
        COLORS_PER_SATELLITE_def COLOR_IDS_def BEAMS_PER_SATELLITE_def)
  have "solve stof_int stoi_std calc_angle_exact insertion_sort ''swapped.txt''
      (Some swapped_lines) = ([], Aborted SatIdAssertion)"
    by (simp only: solve_def swapped_parse vis srt run option.case parsed.case sum.case
        prod.case list.map)
  then show ?thesis
    by (simp add: swapped_parse SATS_KEY_def USER_KEY_def)
qed

text \<open>
  C4. For every satellite of the scenario read from the file, in the heap reached after
  the first \<open>k\<close> users of any run of the engine (so at every point between two users, and
  at the end), the shared counter equals the number of beam targets in its four slots and
  is at most 32.
\<close>

theorem capacity_counter_invariant:
  assumes "parse_lines stof stoi lines initial_state = Parsed (scenario, sat_beam_list, h0)"
    and "assign_beams_and_print calc_angle scenario (take k user_vis_list) sat_beam_list h0
           = (h, outs, r)"
  shows "\<forall>sat. 0 \<le> sat \<and> sat < int (length (scenario SATS_KEY)) \<longrightarrow>
           counter h sat_beam_list sat = slot_sizes h sat_beam_list sat
           \<and> counter h sat_beam_list sat \<le> BEAMS_PER_SATELLITE"
proof -
  note inv = parsed_invariant[OF assms(1)]
  note start = parse_invariant_capacity[OF inv]
  from assign_capacity_invariant[OF assms(2) start] have
    ci: "\<forall>sat \<in> set (sat_ids sat_beam_list).
           counter h sat_beam_list sat = slot_sizes h sat_beam_list sat
           \<and> counter h sat_beam_list sat \<le> BEAMS_PER_SATELLITE"
    unfolding capacity_invariant_def list_all_iff .
  show ?thesis
  proof (intro allI impI)
    fix sat
    assume "0 \<le> sat \<and> sat < int (length (scenario SATS_KEY))"
    then have "sat \<in> set (sat_ids sat_beam_list)"
      by (simp add: parsed_sat_ids[OF inv])
    with ci show "counter h sat_beam_list sat = slot_sizes h sat_beam_list sat
        \<and> counter h sat_beam_list sat \<le> BEAMS_PER_SATELLITE"
      by blast
  qed
qed

theorem capacity_counter_invariant_witness:
  "parse_lines stof_int stoi_std example_lines initial_state
     = Parsed (example_scenario, example_sat_beam_list, example_heap)
   \<and> assign_beams_and_print calc_angle_exact example_scenario (take 3 example_users)
       example_sat_beam_list example_heap = (example_final_heap, example_events, None)
   \<and> counter example_final_heap example_sat_beam_list 0 = 3
   \<and> slot_sizes example_final_heap example_sat_beam_list 0 = 3
   \<and> counter example_final_heap example_sat_beam_list 0 \<le> BEAMS_PER_SATELLITE"
proof -
  have run: "assign_beams_and_print calc_angle_exact example_scenario (take 3 example_users)
       example_sat_beam_list example_heap = (example_final_heap, example_events, None)"
    using example_run by (simp add: example_users_def)
  have "(0::int) \<le> 0 \<and> (0::int) < int (length (example_scenario SATS_KEY))"
    by (simp add: example_scenario_def SATS_KEY_def USER_KEY_def)
  with capacity_counter_invariant[OF example_parse run] have
    "counter example_final_heap example_sat_beam_list 0
       = slot_sizes example_final_heap example_sat_beam_list 0
     \<and> counter example_final_heap example_sat_beam_list 0 \<le> BEAMS_PER_SATELLITE"
    by blast
  moreover have "counter example_final_heap example_sat_beam_list 0 = 3"
    by (simp add: counter_def slot_def example_final_heap_def example_sat_beam_list_def)
  ultimately show ?thesis
    using example_parse run by simp
qed

text \<open>
  C5. After the first \<open>k\<close> users of any run of the engine on the state read from the
  file, any two beam targets stored at different places of one (satellite, color) slot
  are at least 10 degrees apart, seen from the position of that satellite. The angle
  function is taken to be symmetric in its two end points, as \<open>calc_angle\<close> is, and to
  have a value (not NaN) for the users seen from the satellites of the scenario.
\<close>

theorem same_color_beams_separated:
  assumes "parse_lines stof stoi lines initial_state = Parsed (scenario, sat_beam_list, h0)"
    and "assign_beams_and_print calc_angle scenario (take k user_vis_list) sat_beam_list h0
           = (h, outs, r)"
    and "\<forall>v a b. calc_angle v a b = calc_angle v b a"
    and "\<forall>s \<in> set (scenario SATS_KEY). \<forall>p \<in> set (scenario USER_KEY).
           \<forall>q \<in> set (scenario USER_KEY). calc_angle s p q \<noteq> NaN"
  shows "\<forall>sat c i j.
           0 \<le> sat \<and> sat < int (length (scenario SATS_KEY)) \<and> c < length COLOR_IDS
           \<and> i < length (vectors h (beam_list (slot sat_beam_list sat c)))
           \<and> j < length (vectors h (beam_list (slot sat_beam_list sat c))) \<and> i \<noteq> j \<longrightarrow>
           angle_ge (calc_angle (scenario SATS_KEY ! nat sat)
                       (vectors h (beam_list (slot sat_beam_list sat c)) ! i)
                       (vectors h (beam_list (slot sat_beam_list sat c)) ! j))
             SELF_INTERFERENCE_MAX"
proof (intro allI impI)
  fix sat c i j
  let ?xs = "vectors h (beam_list (slot sat_beam_list sat c))"
  let ?v = "scenario SATS_KEY ! nat sat"
  assume a: "0 \<le> sat \<and> sat < int (length (scenario SATS_KEY)) \<and> c < length COLOR_IDS
    \<and> i < length ?xs \<and> j < length ?xs \<and> i \<noteq> j"
  note inv = parsed_invariant[OF assms(1)]
  from a have s: "sat \<in> set (sat_ids sat_beam_list)"
    by (simp add: parsed_sat_ids[OF inv])
  from inv have wf: "wf_sat_beam_list sat_beam_list"
    by (simp add: parse_invariant_def)
  from assign_separation_invariant[OF assms(2) wf parse_invariant_separation[OF inv]] s a
  have sep: "separated calc_angle ?v ?xs" and sub: "set ?xs \<subseteq> set (scenario USER_KEY)"
    by (simp_all add: separation_invariant_def)
  from a have "nat sat < length (scenario SATS_KEY)"
    by auto
  then have v: "?v \<in> set (scenario SATS_KEY)"
    by simp
  from a have "?xs ! i \<in> set ?xs" "?xs ! j \<in> set ?xs"
    by simp_all
  with sub have "?xs ! i \<in> set (scenario USER_KEY)" "?xs ! j \<in> set (scenario USER_KEY)"
    by blast+
  with assms(4) v obtain d where d: "calc_angle ?v (?xs ! i) (?xs ! j) = Deg d"
    by (metis angle.exhaust)
  have "\<not> angle_lt (calc_angle ?v (?xs ! i) (?xs ! j)) SELF_INTERFERENCE_MAX"
  proof (cases "j < i")
    case True
    with sep a show ?thesis
      by (simp add: separated_def)
  next
    case False
    with a have "i < j"
      by simp
    with sep a have "\<not> angle_lt (calc_angle ?v (?xs ! j) (?xs ! i)) SELF_INTERFERENCE_MAX"
      by (simp add: separated_def)
    moreover from assms(3) have
      "calc_angle ?v (?xs ! i) (?xs ! j) = calc_angle ?v (?xs ! j) (?xs ! i)"
      by blast
    ultimately show ?thesis
      by simp
  qed
  with d show "angle_ge (calc_angle ?v (?xs ! i) (?xs ! j)) SELF_INTERFERENCE_MAX"
    by simp
qed

theorem same_color_beams_separated_witness:
  "parse_lines stof_int stoi_std example_lines initial_state
     = Parsed (example_scenario, example_sat_beam_list, example_heap)
   \<and> assign_beams_and_print calc_angle_exact example_scenario (take 3 example_users)
       example_sat_beam_list example_heap = (example_final_heap, example_events, None)
   \<and> vectors example_final_heap (beam_list (slot example_sat_beam_list 0 0))
       = [(0, 0, 1), (1, 0, 2)]
   \<and> angle_ge (calc_angle_exact (0, 0, 2) (0, 0, 1) (1, 0, 2)) SELF_INTERFERENCE_MAX"
proof -
  have run: "assign_beams_and_print calc_angle_exact example_scenario (take 3 example_users)
       example_sat_beam_list example_heap = (example_final_heap, example_events, None)"
    using example_run by (simp add: example_users_def)
  have sym: "\<forall>v a b. calc_angle_exact v a b = calc_angle_exact v b a"
    using calc_angle_exact_symmetric by blast
  have def: "\<forall>s \<in> set (example_scenario SATS_KEY). \<forall>p \<in> set (example_scenario USER_KEY).
           \<forall>q \<in> set (example_scenario USER_KEY). calc_angle_exact s p q \<noteq> NaN"
    by (simp add: calc_angle_exact_NaN_iff example_scenario_def SATS_KEY_def USER_KEY_def)
  have slot0: "vectors example_final_heap (beam_list (slot example_sat_beam_list 0 0))
       = [(0, 0, 1), (1, 0, 2)]"
    by (simp add: slot_def example_final_heap_def example_sat_beam_list_def)
  have "0 \<le> (0::int) \<and> (0::int) < int (length (example_scenario SATS_KEY))
      \<and> (0::nat) < length COLOR_IDS
      \<and> (0::nat) < length (vectors example_final_heap (beam_list (slot example_sat_beam_list 0 0)))
      \<and> (1::nat) < length (vectors example_final_heap (beam_list (slot example_sat_beam_list 0 0)))
      \<and> (0::nat) \<noteq> 1"
    by (simp add: slot0 length_COLOR_IDS example_scenario_def SATS_KEY_def USER_KEY_def)
  with same_color_beams_separated[OF example_parse run sym def, rule_format, of 0 0 0 1]
  have "angle_ge (calc_angle_exact (example_scenario SATS_KEY ! nat 0)
                       (vectors example_final_heap (beam_list (slot example_sat_beam_list 0 0)) ! 0)
                       (vectors example_final_heap (beam_list (slot example_sat_beam_list 0 0)) ! 1))
             SELF_INTERFERENCE_MAX"
    by blast
  then have "angle_ge (calc_angle_exact (0, 0, 2) (0, 0, 1) (1, 0, 2)) SELF_INTERFERENCE_MAX"
    by (simp add: slot0 example_scenario_def SATS_KEY_def USER_KEY_def)
  with example_parse run slot0 show ?thesis
    by simp
qed

text \<open>
  C6. After the first \<open>k\<close> users of any run of the engine on the state read from the
  file, the counts reported so far for a satellite are exactly 1, 2, ... up to the
  current value of its counter, in the order of emission: they are strictly increasing,
  the first is 1, and the count reported last is the value of the counter after the
  increment of that commit.
\<close>

theorem reported_counts_increasing:
  assumes "parse_lines stof stoi lines initial_state = Parsed (scenario, sat_beam_list, h0)"
    and "assign_beams_and_print calc_angle scenario (take k user_vis_list) sat_beam_list h0
           = (h, outs, r)"
  shows "\<forall>sat. 0 \<le> sat \<and> sat < int (length (scenario SATS_KEY)) \<longrightarrow>
           map out_beam (filter (\<lambda>a. out_sat a = sat + 1) outs) = [1 .. counter h sat_beam_list sat]
           \<and> sorted_wrt (<) (map out_beam (filter (\<lambda>a. out_sat a = sat + 1) outs))"
proof (intro allI impI)
  fix sat
  assume a: "0 \<le> sat \<and> sat < int (length (scenario SATS_KEY))"
  note inv = parsed_invariant[OF assms(1)]
  from a have s: "sat \<in> set (sat_ids sat_beam_list)"
    by (simp add: parsed_sat_ids[OF inv])
  from inv have wf: "wf_sat_beam_list sat_beam_list" and z: "\<And>a. ints h0 a = 0"
    by (simp_all add: parse_invariant_def)
  have "counter h0 sat_beam_list sat = 0"
    by (simp add: counter_def z)
  with assign_reported[OF assms(2) wf s] have
    "map out_beam (filter (\<lambda>a. out_sat a = sat + 1) outs) = [1 .. counter h sat_beam_list sat]"
    by simp
  then show "map out_beam (filter (\<lambda>a. out_sat a = sat + 1) outs) = [1 .. counter h sat_beam_list sat]
      \<and> sorted_wrt (<) (map out_beam (filter (\<lambda>a. out_sat a = sat + 1) outs))"
    by simp
qed

theorem reported_counts_increasing_witness:
  "parse_lines stof_int stoi_std example_lines initial_state
     = Parsed (example_scenario, example_sat_beam_list, example_heap)
   \<and> assign_beams_and_print calc_angle_exact example_scenario (take 3 example_users)
       example_sat_beam_list example_heap = (example_final_heap, example_events, None)
   \<and> map out_beam (filter (\<lambda>a. out_sat a = 0 + 1) example_events) = [1, 2, 3]
   \<and> counter example_final_heap example_sat_beam_list 0 = 3
   \<and> sorted_wrt (<) (map out_beam (filter (\<lambda>a. out_sat a = 0 + 1) example_events))"
proof -
  have run: "assign_beams_and_print calc_angle_exact example_scenario (take 3 example_users)
       example_sat_beam_list example_heap = (example_final_heap, example_events, None)"
    using example_run by (simp add: example_users_def)
  have "(0::int) \<le> 0 \<and> (0::int) < int (length (example_scenario SATS_KEY))"
    by (simp add: example_scenario_def SATS_KEY_def USER_KEY_def)
  with reported_counts_increasing[OF example_parse run] have
    "map out_beam (filter (\<lambda>a. out_sat a = 0 + 1) example_events)
       = [1 .. counter example_final_heap example_sat_beam_list 0]
     \<and> sorted_wrt (<) (map out_beam (filter (\<lambda>a. out_sat a = 0 + 1) example_events))"
    by blast
  moreover have "counter example_final_heap example_sat_beam_list 0 = 3"
    by (simp add: counter_def slot_def example_final_heap_def example_sat_beam_list_def)
  moreover have "[1 .. 3 :: int] = [1, 2, 3]"
    by (simp add: upto_rec1)
  ultimately show ?thesis
    using example_parse run by simp
qed

text \<open>
  C7. A file that cannot be opened is reported and \<open>solve\<close> returns. When the lines read
  before a malformed line were all read without ending the run, the malformed line is
  reported and \<open>solve\<close> returns at once. Whatever precedes it, a file with a malformed line
  gives no assignment line.
\<close>

theorem unreadable_input_reported:
  assumes "malformed line_buff"
  shows "solve stof stoi calc_angle std_sort filename None
      = ([FileDoesNotExist filename], Returned)
    \<and> (parse_lines stof stoi pre initial_state = Parsed st \<longrightarrow>
         solve stof stoi calc_angle std_sort filename (Some (pre @ line_buff # rest))
           = ([CouldntReadLine line_buff], Returned))
    \<and> (\<forall>a. Assigned a \<notin> set (fst (solve stof stoi calc_angle std_sort filename
                                      (Some (pre @ line_buff # rest)))))"
proof (intro conjI impI allI)
  show "solve stof stoi calc_angle std_sort filename None = ([FileDoesNotExist filename], Returned)"
    by (simp add: solve_def)
next
  assume "parse_lines stof stoi pre initial_state = Parsed st"
  with assms have "parse_lines stof stoi (pre @ line_buff # rest) initial_state
      = CouldntRead line_buff"
    by (simp add: parse_lines_append parse_line_malformed)
  then show "solve stof stoi calc_angle std_sort filename (Some (pre @ line_buff # rest))
      = ([CouldntReadLine line_buff], Returned)"
    by (simp add: solve_def)
next
  fix a
  from assms have "\<exists>l \<in> set (pre @ line_buff # rest). malformed l"
    by simp
  from solve_not_Parsed[OF parse_lines_malformed_not_Parsed[OF this]]
  show "Assigned a \<notin> set (fst (solve stof stoi calc_angle std_sort filename
      (Some (pre @ line_buff # rest))))" .
qed

theorem unreadable_input_reported_witness:
  "malformed ''user 4 1 2''
   \<and> solve stof_int stoi_std calc_angle_exact insertion_sort ''missing.txt'' None
       = ([FileDoesNotExist ''missing.txt''], Returned)
   \<and> parse_lines stof_int stoi_std example_lines initial_state
       = Parsed (example_scenario, example_sat_beam_list, example_heap)
   \<and> solve stof_int stoi_std calc_angle_exact insertion_sort ''scenario.txt''
         (Some (example_lines @ ''user 4 1 2'' # [''user 5 0 0 1'']))
       = ([CouldntReadLine ''user 4 1 2''], Returned)"
  using unreadable_input_reported[OF example_malformed, of stof_int stoi_std calc_angle_exact
      insertion_sort "''missing.txt''" example_lines
      "(example_scenario, example_sat_beam_list, example_heap)"]
    unreadable_input_reported[OF example_malformed, of stof_int stoi_std calc_angle_exact
      insertion_sort "''scenario.txt''" example_lines
      "(example_scenario, example_sat_beam_list, example_heap)" "[''user 5 0 0 1'']"]
    example_malformed example_parse
  by simp




text \<open>
  C9. A line of five tokens whose coordinates convert and whose role token is none of
  \<open>user\<close>, \<open>sat\<close>, \<open>interferer\<close> makes the assertion of line 294 fail: when the lines
  before it were read without ending the run, the run is aborted there, nothing is
  printed, and the line is not reported as unreadable. The assertion fails for no other
  file: a run ends with this assertion only if some line of five tokens has an unknown
  role token.
\<close>

theorem unknown_role_aborts:
  assumes "parse_lines stof stoi pre initial_state = Parsed st"
    and "\<not> skipped line_buff" and "split line_buff CHR '' '' = parts" and "length parts = 5"
    and "stof (parts ! 2) = Some x" and "stof (parts ! 3) = Some y" and "stof (parts ! 4) = Some z"
    and "\<not> known_role line_buff"
  shows "solve stof stoi calc_angle std_sort filename (Some (pre @ line_buff # rest))
      = ([], Aborted RoleAssertion)
    \<and> (\<forall>lines st0. parse_lines stof stoi lines st0 = Crashed RoleAssertion \<longrightarrow>
          (\<exists>l \<in> set lines. \<not> skipped l \<and> length (split l CHR '' '') = 5 \<and> \<not> known_role l))"
proof (intro conjI allI impI)
  obtain scenario sbl h where st: "st = (scenario, sbl, h)"
    by (cases st)
  from assms(3,8) have "parts ! 0 \<noteq> USER_KEY \<and> parts ! 0 \<noteq> SATS_KEY \<and> parts ! 0 \<noteq> INTERFERER_KEY"
    by (auto simp: known_role_def)
  with assms(5,6,7) have "parse_line stof stoi line_buff st = Crashed RoleAssertion"
    unfolding st parse_line_five[OF assms(2,3,4)] by simp
  with assms(1) have "parse_lines stof stoi (pre @ line_buff # rest) initial_state
      = Crashed RoleAssertion"
    by (simp add: parse_lines_append)
  then show "solve stof stoi calc_angle std_sort filename (Some (pre @ line_buff # rest))
      = ([], Aborted RoleAssertion)"
    by (simp add: solve_def)
next
  fix lines :: "string list" and st0 :: "'a parse_state"
  assume "parse_lines stof stoi lines st0 = Crashed RoleAssertion"
  then show "\<exists>l \<in> set lines. \<not> skipped l \<and> length (split l CHR '' '') = 5 \<and> \<not> known_role l"
    by (rule parse_lines_RoleAssertion)
qed

theorem unknown_role_aborts_witness:
  "parse_lines stof_int stoi_std example_lines initial_state
     = Parsed (example_scenario, example_sat_beam_list, example_heap)
   \<and> \<not> skipped ''moon 1 0 0 9''
   \<and> split ''moon 1 0 0 9'' CHR '' '' = [''moon'', ''1'', ''0'', ''0'', ''9'']
   \<and> \<not> known_role ''moon 1 0 0 9''
   \<and> solve stof_int stoi_std calc_angle_exact insertion_sort ''scenario.txt''
         (Some (example_lines @ ''moon 1 0 0 9'' # [''user 5 0 0 1'']))
       = ([], Aborted RoleAssertion)"
proof -
  have "length [''moon'', ''1'', ''0'', ''0'', ''9''] = 5"
    "stof_int ([''moon'', ''1'', ''0'', ''0'', ''9''] ! 2) = Some 0"
    "stof_int ([''moon'', ''1'', ''0'', ''0'', ''9''] ! 3) = Some 0"
    "stof_int ([''moon'', ''1'', ''0'', ''0'', ''9''] ! 4) = Some 9"
    by (simp_all add: example_stof moon_line)
  from unknown_role_aborts[OF example_parse moon_line(1,2) this moon_line(3),
      where calc_angle = calc_angle_exact and std_sort = insertion_sort
        and filename = "''scenario.txt''" and rest = "[''user 5 0 0 1'']"]
    example_parse moon_line
  show ?thesis
    by simp
qed

text \<open>
  C10. A line of five tokens with a coordinate token that \<open>std::stof\<close> cannot convert
  raises an exception nobody catches: when the lines before it were read without ending
  the run, the run is aborted there, nothing is printed, and the line is not reported as
  unreadable.
\<close>

theorem unparsable_coordinate_aborts:
  assumes "parse_lines stof stoi pre initial_state = Parsed st"
    and "\<not> skipped line_buff" and "split line_buff CHR '' '' = parts" and "length parts = 5"
    and "stof (parts ! 2) = None \<or> stof (parts ! 3) = None \<or> stof (parts ! 4) = None"
  shows "solve stof stoi calc_angle std_sort filename (Some (pre @ line_buff # rest))
      = ([], Aborted ConversionException)"
proof -
  obtain scenario sbl h where st: "st = (scenario, sbl, h)"
    by (cases st)
  from assms(5) have "parse_line stof stoi line_buff st = Crashed ConversionException"
    unfolding st parse_line_five[OF assms(2,3,4)] by (auto split: option.splits)
  with assms(1) have "parse_lines stof stoi (pre @ line_buff # rest) initial_state
      = Crashed ConversionException"
    by (simp add: parse_lines_append)
  then show ?thesis
    by (simp add: solve_def)
qed

theorem unparsable_coordinate_aborts_witness:
  "parse_lines stof_int stoi_std example_lines initial_state
     = Parsed (example_scenario, example_sat_beam_list, example_heap)
   \<and> \<not> skipped ''user 4 0 north 1''
   \<and> split ''user 4 0 north 1'' CHR '' '' = [''user'', ''4'', ''0'', ''north'', ''1'']
   \<and> stof_int ''north'' = None
   \<and> solve stof_int stoi_std calc_angle_exact insertion_sort ''scenario.txt''
         (Some (example_lines @ ''user 4 0 north 1'' # [''user 5 0 0 1'']))
       = ([], Aborted ConversionException)"
proof -
  have "length [''user'', ''4'', ''0'', ''north'', ''1''] = 5"
    "stof_int ([''user'', ''4'', ''0'', ''north'', ''1''] ! 2) = None
     \<or> stof_int ([''user'', ''4'', ''0'', ''north'', ''1''] ! 3) = None
     \<or> stof_int ([''user'', ''4'', ''0'', ''north'', ''1''] ! 4) = None"
    by (simp_all add: north_line)
  from unparsable_coordinate_aborts[OF example_parse north_line(1,2) this,
      where calc_angle = calc_angle_exact and std_sort = insertion_sort
        and filename = "''scenario.txt''" and rest = "[''user 5 0 0 1'']"]
    example_parse north_line
  show ?thesis
    by simp
qed
end
